theory Spec2Isabelle
  imports Complex_Main "HOL-Library.Word"
begin

section \<open>Pixel Pop: the SVG renderer, the raster export and the image import\<close>

text \<open>
  The development embeds the parts of \<^verbatim>\<open>src/components/canvas/SVGRenderer.jsx\<close> and
  \<^verbatim>\<open>src/App.jsx\<close> that build shape paths, window the grid, emit the render elements,
  convert pointer positions and sample an imported image.

  JavaScript numbers are modelled as reals where every divisor is a non-zero constant or
  is assumed non-zero, and as \<open>jsnum\<close> (a real, an infinity or NaN) where the source
  divides by a quantity that can be zero. Rounding of doubles is not modelled.
\<close>

subsection \<open>Template literals\<close>

text \<open>
  A template literal such as \<^verbatim>\<open>`M ${x},${y} H ${x + size}`\<close> is kept as the list of its
  literal chunks and interpolated numbers, in order. The string the browser builds is the
  concatenation of the chunks with each number printed by Number-to-String. Paths and
  React keys are kept as token lists; equal token lists give equal strings.
\<close>

datatype tok = Lit string | Num real

type_synonym template = "tok list"


text \<open>
  A printer for the sample inputs: \<open>natToString\<close> writes a natural number in decimal, and
  \<open>decimalString\<close> writes an integer value as JavaScript does (for magnitudes below
  \<open>10 ^ 21\<close>). A value with a fraction is written as its integer part followed by
  \<^verbatim>\<open>.5\<close>, which is right for halves only; the sample inputs print integers.
\<close>

function natToString :: "nat \<Rightarrow> string" where
  "natToString n =
     (if n < 10 then [''0123456789'' ! n]
      else natToString (n div 10) @ [''0123456789'' ! (n mod 10)])"
  by pat_completeness auto
termination
  by (relation "measure (\<lambda>n. n)") auto

declare natToString.simps [simp del]

definition decimalString :: "real \<Rightarrow> string" where
  "decimalString r =
     (if r < 0 then ''-'' else [])
     @ natToString (nat \<lfloor>\<bar>r\<bar>\<rfloor>)
     @ (if \<bar>r\<bar> = real_of_int \<lfloor>\<bar>r\<bar>\<rfloor> then [] else ''.5'')"

subsection \<open>Shape configuration\<close>

record corner_radius =
  enabled :: bool
  topLeft :: real
  topRight :: real
  bottomLeft :: real
  bottomRight :: real

record custom_shape =
  path :: string
  viewBox :: string

text \<open>\<^verbatim>\<open>JSON.stringify(cornerRadius)\<close>; \<open>None\<close> is \<^verbatim>\<open>null\<close>. The fields are printed
  in the order of the component's default value.\<close>

definition json_stringify :: "(real \<Rightarrow> string) \<Rightarrow> corner_radius option \<Rightarrow> string" where
  \<open>json_stringify numberToString c =
     (case c of
        None \<Rightarrow> ''null''
      | Some r \<Rightarrow>
          ''{"enabled":'' @ (if enabled r then ''true'' else ''false'')
          @ '',"topLeft":'' @ numberToString (topLeft r)
          @ '',"topRight":'' @ numberToString (topRight r)
          @ '',"bottomLeft":'' @ numberToString (bottomLeft r)
          @ '',"bottomRight":'' @ numberToString (bottomRight r)
          @ ''}'')\<close>

text \<open>\<^verbatim>\<open>customShape?.path || ''\<close>: the empty string when the object is missing or its
  path is empty.\<close>

definition customPathOrEmpty :: "custom_shape option \<Rightarrow> string" where
  "customPathOrEmpty cs = (case cs of None \<Rightarrow> [] | Some s \<Rightarrow> path s)"

subsection \<open>The shape-path generator and its cache\<close>

text \<open>
  The cache key: six fields joined by underscores into one string. Nothing is escaped, so a
  shape or a path that contains an underscore can give the key of another call.
\<close>

definition cacheKey ::
  "(real \<Rightarrow> string) \<Rightarrow> real \<Rightarrow> real \<Rightarrow> real \<Rightarrow> string \<Rightarrow> corner_radius option
     \<Rightarrow> custom_shape option \<Rightarrow> string" where
  "cacheKey numberToString x y sz shape cornerRadius customShape =
     numberToString x @ ''_'' @ numberToString y @ ''_'' @ numberToString sz @ ''_''
     @ shape @ ''_'' @ json_stringify numberToString cornerRadius @ ''_''
     @ customPathOrEmpty customShape"

text \<open>The line break and indentation inside the multi-line template of the rounded
  rectangle.\<close>

definition nl :: "nat \<Rightarrow> string" where
  "nl n = CHR 0x0A # replicate n (CHR '' '')"

definition circlePath :: "real \<Rightarrow> real \<Rightarrow> real \<Rightarrow> template" where
  "circlePath x y sz =
     (let radius = sz / 2; cx = x + radius in
      [Lit ''M '', Num cx, Lit '','', Num y, Lit '' A '', Num radius, Lit '','', Num radius,
       Lit '' 0 1,1 '', Num (cx - 0.001), Lit '','', Num y, Lit '' Z''])"

definition diamondPath :: "real \<Rightarrow> real \<Rightarrow> real \<Rightarrow> template" where
  "diamondPath x y sz =
     (let mid = sz / 2 in
      [Lit ''M '', Num (x + mid), Lit '','', Num y,
       Lit '' L '', Num (x + sz), Lit '','', Num (y + mid),
       Lit '' L '', Num (x + mid), Lit '','', Num (y + sz),
       Lit '' L '', Num x, Lit '','', Num (y + mid), Lit '' Z''])"

definition trianglePath :: "real \<Rightarrow> real \<Rightarrow> real \<Rightarrow> template" where
  "trianglePath x y sz =
     [Lit ''M '', Num (x + sz / 2), Lit '','', Num y,
      Lit '' L '', Num (x + sz), Lit '','', Num (y + sz),
      Lit '' L '', Num x, Lit '','', Num (y + sz), Lit '' Z'']"

definition hexagonVertex :: "real \<Rightarrow> real \<Rightarrow> real \<Rightarrow> nat \<Rightarrow> template" where
  "hexagonVertex cx cy radius i =
     (let angle = real i * pi / 3;
          px = cx + radius * cos angle;
          py = cy + radius * sin angle
      in if i = 0 then [Num px, Lit '','', Num py, Lit '' '']
         else [Lit ''L '', Num px, Lit '','', Num py, Lit '' ''])"

definition hexagonPath :: "real \<Rightarrow> real \<Rightarrow> real \<Rightarrow> template" where
  "hexagonPath x y sz =
     (let radius = sz / 2; cx = x + radius; cy = y + radius in
      [Lit ''M ''] @ concat (map (hexagonVertex cx cy radius) [0..<6]) @ [Lit ''Z''])"

definition roundedRectPath ::
  "real \<Rightarrow> real \<Rightarrow> real \<Rightarrow> real \<Rightarrow> real \<Rightarrow> real \<Rightarrow> real \<Rightarrow> template" where
  "roundedRectPath x y sz topLeftRadius topRightRadius bottomLeftRadius bottomRightRadius =
     [Lit (nl 14 @ ''M ''), Num (x + topLeftRadius), Lit '','', Num y,
      Lit (nl 14 @ ''H ''), Num (x + sz - topRightRadius),
      Lit (nl 14 @ ''Q ''), Num (x + sz), Lit '','', Num y, Lit '' '',
        Num (x + sz), Lit '','', Num (y + topRightRadius),
      Lit (nl 14 @ ''V ''), Num (y + sz - bottomRightRadius),
      Lit (nl 14 @ ''Q ''), Num (x + sz), Lit '','', Num (y + sz), Lit '' '',
        Num (x + sz - bottomRightRadius), Lit '','', Num (y + sz),
      Lit (nl 14 @ ''H ''), Num (x + bottomLeftRadius),
      Lit (nl 14 @ ''Q ''), Num x, Lit '','', Num (y + sz), Lit '' '',
        Num x, Lit '','', Num (y + sz - bottomLeftRadius),
      Lit (nl 14 @ ''V ''), Num (y + topLeftRadius),
      Lit (nl 14 @ ''Q ''), Num x, Lit '','', Num y, Lit '' '',
        Num (x + topLeftRadius), Lit '','', Num y,
      Lit (nl 14 @ ''Z'' @ nl 12)]"

definition plainRectPath :: "real \<Rightarrow> real \<Rightarrow> real \<Rightarrow> template" where
  "plainRectPath x y sz =
     [Lit ''M '', Num x, Lit '','', Num y, Lit '' H '', Num (x + sz),
      Lit '' V '', Num (y + sz), Lit '' H '', Num x, Lit '' Z'']"

text \<open>The \<^verbatim>\<open>rectangle\<close> and \<^verbatim>\<open>default\<close> case of the switch. With no corner-radius
  object the condition \<^verbatim>\<open>cornerRadius?.enabled\<close> is false.\<close>

definition rectanglePath :: "real \<Rightarrow> real \<Rightarrow> real \<Rightarrow> corner_radius option \<Rightarrow> template" where
  "rectanglePath x y sz cornerRadius =
     (case cornerRadius of
        None \<Rightarrow> plainRectPath x y sz
      | Some c \<Rightarrow>
          if enabled c then
            (let maxRadius = sz / 2;
                 topLeftRadius = min ((sz * topLeft c) / 100) maxRadius;
                 topRightRadius = min ((sz * topRight c) / 100) maxRadius;
                 bottomLeftRadius = min ((sz * bottomLeft c) / 100) maxRadius;
                 bottomRightRadius = min ((sz * bottomRight c) / 100) maxRadius
             in roundedRectPath x y sz topLeftRadius topRightRadius
                  bottomLeftRadius bottomRightRadius)
          else plainRectPath x y sz)"

text \<open>The computation of \<^verbatim>\<open>createShapePath\<close> on a cache miss.\<close>

definition shapePath ::
  "real \<Rightarrow> real \<Rightarrow> real \<Rightarrow> string \<Rightarrow> corner_radius option \<Rightarrow> custom_shape option \<Rightarrow> template" where
  "shapePath x y sz shape cornerRadius customShape =
     (if shape = ''custom'' \<and> customPathOrEmpty customShape \<noteq> [] then
        [Lit (customPathOrEmpty customShape)]
      else if shape = ''circle'' then circlePath x y sz
      else if shape = ''diamond'' then diamondPath x y sz
      else if shape = ''triangle'' then trianglePath x y sz
      else if shape = ''hexagon'' then hexagonPath x y sz
      else rectanglePath x y sz cornerRadius)"

text \<open>
  \<^verbatim>\<open>pathCache\<close> is a module-level \<^verbatim>\<open>Map\<close>. A \<^verbatim>\<open>Map\<close> iterates in insertion order, so it
  is an association list with the oldest entry first: \<^verbatim>\<open>set\<close> on a new key appends,
  \<^verbatim>\<open>set\<close> on a present key replaces the value in place, \<^verbatim>\<open>delete\<close> removes the entry
  of the key, and \<^verbatim>\<open>keys().next().value\<close> is the key of the first entry.
\<close>

type_synonym path_cache = "(string \<times> template) list"

definition cache_has :: "path_cache \<Rightarrow> string \<Rightarrow> bool" where
  "cache_has c k = (k \<in> set (map fst c))"

definition cache_get :: "path_cache \<Rightarrow> string \<Rightarrow> template option" where
  "cache_get c k = map_of c k"

fun cache_set :: "path_cache \<Rightarrow> string \<Rightarrow> template \<Rightarrow> path_cache" where
  "cache_set [] k v = [(k, v)]"
| "cache_set ((k', v') # c) k v =
     (if k' = k then (k, v) # c else (k', v') # cache_set c k v)"

definition cache_delete :: "path_cache \<Rightarrow> string \<Rightarrow> path_cache" where
  "cache_delete c k = filter (\<lambda>e. fst e \<noteq> k) c"

definition cache_first_key :: "path_cache \<Rightarrow> string option" where
  "cache_first_key c = (case c of [] \<Rightarrow> None | e # _ \<Rightarrow> Some (fst e))"

definition createShapePath ::
  "(real \<Rightarrow> string) \<Rightarrow> path_cache \<Rightarrow> real \<Rightarrow> real \<Rightarrow> real \<Rightarrow> string \<Rightarrow> corner_radius option
     \<Rightarrow> custom_shape option \<Rightarrow> template \<times> path_cache" where
  "createShapePath numberToString pathCache x y sz shape cornerRadius customShape =
     (let key = cacheKey numberToString x y sz shape cornerRadius customShape in
      if cache_has pathCache key then
        (case cache_get pathCache key of
           Some p \<Rightarrow> (p, pathCache)
         | None \<Rightarrow> ([], pathCache))
      else
        (let p = shapePath x y sz shape cornerRadius customShape;
             c1 = cache_set pathCache key p;
             c2 = (if length c1 > 1000 then
                     (case cache_first_key c1 of
                        Some firstKey \<Rightarrow> cache_delete c1 firstKey
                      | None \<Rightarrow> c1)
                   else c1)
         in (p, c2)))"

text \<open>One call of the generator, and the cache after a sequence of calls starting from
  the empty cache the module creates.\<close>

record shape_call =
  call_x :: real
  call_y :: real
  call_size :: real
  call_shape :: string
  call_cornerRadius :: "corner_radius option"
  call_customShape :: "custom_shape option"

definition callShapePath ::
  "(real \<Rightarrow> string) \<Rightarrow> path_cache \<Rightarrow> shape_call \<Rightarrow> template \<times> path_cache" where
  "callShapePath numberToString c a =
     createShapePath numberToString c (call_x a) (call_y a) (call_size a) (call_shape a)
       (call_cornerRadius a) (call_customShape a)"

definition callKey :: "(real \<Rightarrow> string) \<Rightarrow> shape_call \<Rightarrow> string" where
  "callKey numberToString a =
     cacheKey numberToString (call_x a) (call_y a) (call_size a) (call_shape a)
       (call_cornerRadius a) (call_customShape a)"

definition callPath :: "shape_call \<Rightarrow> template" where
  "callPath a =
     shapePath (call_x a) (call_y a) (call_size a) (call_shape a)
       (call_cornerRadius a) (call_customShape a)"

fun cacheAfter :: "(real \<Rightarrow> string) \<Rightarrow> path_cache \<Rightarrow> shape_call list \<Rightarrow> path_cache" where
  "cacheAfter numberToString c [] = c"
| "cacheAfter numberToString c (a # as) =
     cacheAfter numberToString (snd (callShapePath numberToString c a)) as"

text \<open>The invariant of the cache: keys are unique, the size is bounded, and every entry
  holds the path computed for some call with that key.\<close>

definition cache_ok :: "(real \<Rightarrow> string) \<Rightarrow> path_cache \<Rightarrow> bool" where
  "cache_ok numberToString c \<longleftrightarrow>
     distinct (map fst c) \<and> length c \<le> 1000 \<and>
     (\<forall>e \<in> set c. \<exists>a. fst e = callKey numberToString a \<and> snd e = callPath a)"


text \<open>The entries a sequence of calls inserts (one for each miss), in the order of
  insertion, and the last \<open>n\<close> elements of a list.\<close>

fun insertions ::
  "(real \<Rightarrow> string) \<Rightarrow> path_cache \<Rightarrow> shape_call list \<Rightarrow> (string \<times> template) list" where
  "insertions numberToString c [] = []"
| "insertions numberToString c (a # as) =
     (if cache_has c (callKey numberToString a) then insertions numberToString c as
      else (callKey numberToString a, callPath a)
           # insertions numberToString (snd (callShapePath numberToString c a)) as)"

definition lastN :: "nat \<Rightarrow> 'a list \<Rightarrow> 'a list" where
  "lastN n xs = drop (length xs - n) xs"


text \<open>Sample calls: plain rectangles at distinct positions.\<close>

definition rectCall :: "nat \<Rightarrow> shape_call" where
  "rectCall i =
     \<lparr>call_x = real i, call_y = 0, call_size = 10, call_shape = ''rectangle'',
      call_cornerRadius = None, call_customShape = None\<rparr>"

definition rectEntry :: "nat \<Rightarrow> string \<times> template" where
  "rectEntry i = (callKey decimalString (rectCall i), callPath (rectCall i))"

subsection \<open>Viewport windowing\<close>

record viewport =
  vp_left :: real
  vp_top :: real
  vp_width :: real
  vp_height :: real
  vp_scale :: real

record visible_range =
  startX :: int
  endX :: int
  startY :: int
  endY :: int

text \<open>\<^verbatim>\<open>visibleArea\<close>. The viewport fields and the cell size are finite numbers, and the
  model is meant for \<open>cellSize \<noteq> 0\<close>: with a zero cell size JavaScript divides to an
  infinity or NaN, which the real division here does not show. The \<open>scale\<close> field is read
  but not used.\<close>

definition visibleArea :: "viewport \<Rightarrow> real \<Rightarrow> real \<Rightarrow> int \<Rightarrow> int \<Rightarrow> visible_range" where
  "visibleArea viewportState pixelSize gridGap gridWidth gridHeight =
     (let cellSize = pixelSize + gridGap;
          buffer = 5
      in \<lparr>startX = max 0 (\<lfloor>vp_left viewportState / cellSize\<rfloor> - buffer),
          endX = min gridWidth
                   (\<lceil>(vp_left viewportState + vp_width viewportState) / cellSize\<rceil> + buffer),
          startY = max 0 (\<lfloor>vp_top viewportState / cellSize\<rfloor> - buffer),
          endY = min gridHeight
                   (\<lceil>(vp_top viewportState + vp_height viewportState) / cellSize\<rceil> + buffer)\<rparr>)"

text \<open>
  The spec's description of the visible range, step by step: the raw index range of the
  viewport, its expansion by a buffer on every side, and the clamping of a range to the
  grid (lower bounds at 0, upper bounds at the grid size). \<open>rangeCells\<close> is the set of
  cell indices of a range, which is inclusive-exclusive.
\<close>

definition rawRange :: "viewport \<Rightarrow> real \<Rightarrow> visible_range" where
  "rawRange v cellSize =
     \<lparr>startX = \<lfloor>vp_left v / cellSize\<rfloor>,
      endX = \<lceil>(vp_left v + vp_width v) / cellSize\<rceil>,
      startY = \<lfloor>vp_top v / cellSize\<rfloor>,
      endY = \<lceil>(vp_top v + vp_height v) / cellSize\<rceil>\<rparr>"

definition expandRange :: "int \<Rightarrow> visible_range \<Rightarrow> visible_range" where
  "expandRange b r =
     \<lparr>startX = startX r - b, endX = endX r + b, startY = startY r - b, endY = endY r + b\<rparr>"

definition clampRange :: "int \<Rightarrow> int \<Rightarrow> visible_range \<Rightarrow> visible_range" where
  "clampRange w h r =
     \<lparr>startX = max 0 (startX r), endX = min w (endX r),
      startY = max 0 (startY r), endY = min h (endY r)\<rparr>"

definition rangeCells :: "visible_range \<Rightarrow> (int \<times> int) set" where
  "rangeCells r = {(x, y). startX r \<le> x \<and> x < endX r \<and> startY r \<le> y \<and> y < endY r}"

definition gridRange :: "int \<Rightarrow> int \<Rightarrow> visible_range" where
  "gridRange w h = \<lparr>startX = 0, endX = w, startY = 0, endY = h\<rparr>"

text \<open>Cell \<open>(x, y)\<close> occupies the square from \<open>(x * cellSize, y * cellSize)\<close> to
  \<open>((x + 1) * cellSize, (y + 1) * cellSize)\<close>; it meets the viewport rectangle when the
  two closed rectangles share a point.\<close>

definition cellIntersectsViewport :: "viewport \<Rightarrow> real \<Rightarrow> int \<Rightarrow> int \<Rightarrow> bool" where
  "cellIntersectsViewport v cellSize x y \<longleftrightarrow>
     real_of_int x * cellSize \<le> vp_left v + vp_width v \<and>
     vp_left v \<le> (real_of_int x + 1) * cellSize \<and>
     real_of_int y * cellSize \<le> vp_top v + vp_height v \<and>
     vp_top v \<le> (real_of_int y + 1) * cellSize"

subsection \<open>Grid lines\<close>

record svg_line =
  line_key :: template
  x1 :: real
  y1 :: real
  x2 :: real
  y2 :: real
  stroke :: string
  strokeWidth :: string

definition verticalLine :: "real \<Rightarrow> real \<Rightarrow> int \<Rightarrow> svg_line" where
  "verticalLine cellSize totalHeight x =
     \<lparr>line_key = [Lit ''v'', Num (real_of_int x)],
      x1 = real_of_int x * cellSize - 0.5, y1 = 0,
      x2 = real_of_int x * cellSize - 0.5, y2 = totalHeight,
      stroke = ''rgba(128, 128, 128, 0.5)'', strokeWidth = ''1''\<rparr>"

definition horizontalLine :: "real \<Rightarrow> real \<Rightarrow> int \<Rightarrow> svg_line" where
  "horizontalLine cellSize totalWidth y =
     \<lparr>line_key = [Lit ''h'', Num (real_of_int y)],
      x1 = 0, y1 = real_of_int y * cellSize - 0.5,
      x2 = totalWidth, y2 = real_of_int y * cellSize - 0.5,
      stroke = ''rgba(128, 128, 128, 0.5)'', strokeWidth = ''1''\<rparr>"

text \<open>\<^verbatim>\<open>gridLines\<close>; \<open>None\<close> is \<^verbatim>\<open>null\<close>. Both loops run to the end index inclusive.\<close>

definition gridLines ::
  "bool \<Rightarrow> real \<Rightarrow> real \<Rightarrow> visible_range \<Rightarrow> real \<Rightarrow> real \<Rightarrow> svg_line list option" where
  "gridLines showGrid pixelSize gridGap visibleArea' totalWidth totalHeight =
     (if \<not> showGrid then None
      else
        (let cellSize = pixelSize + gridGap in
         Some (map (verticalLine cellSize totalHeight) [startX visibleArea'..endX visibleArea']
               @ map (horizontalLine cellSize totalWidth) [startY visibleArea'..endY visibleArea'])))"

subsection \<open>Effect settings\<close>

text \<open>
  A settings object may lack any field: a field is an option. \<^verbatim>\<open>a || b\<close> yields \<open>b\<close>
  when \<open>a\<close> is falsy, which for a number is \<^verbatim>\<open>undefined\<close> or zero and for a string is
  \<^verbatim>\<open>undefined\<close> or the empty string.
\<close>

definition orNum :: "real option \<Rightarrow> real \<Rightarrow> real" where
  "orNum a b = (case a of None \<Rightarrow> b | Some v \<Rightarrow> if v = 0 then b else v)"

definition orStr :: "string option \<Rightarrow> string \<Rightarrow> string" where
  "orStr a b = (case a of None \<Rightarrow> b | Some v \<Rightarrow> if v = [] then b else v)"

record glow_settings =
  glow_size :: "real option"
  glow_intensity :: "real option"
  glow_spread :: "real option"
  glow_offsetX :: "real option"
  glow_offsetY :: "real option"
  glow_opacity :: "real option"
  glow_blendMode :: "string option"

record bulb_settings =
  bulb_intensity :: "real option"
  bulb_radius :: "real option"
  bulb_positionX :: "real option"
  bulb_positionY :: "real option"
  bulb_color :: "string option"
  bulb_blendMode :: "string option"

text \<open>The \<^verbatim>\<open>radialGradient\<close> with id \<^verbatim>\<open>bulbGradient\<close> in the \<^verbatim>\<open>defs\<close>.\<close>

record gradient_stop =
  stop_offset :: string
  stopColor :: string
  stopOpacity :: real

record radial_gradient =
  grad_cx :: template
  grad_cy :: template
  grad_r :: template
  gradientUnits :: string
  spreadMethod :: string
  stops :: "gradient_stop list"

definition bulbGradient :: "bulb_settings \<Rightarrow> radial_gradient" where
  "bulbGradient bulbSettings =
     \<lparr>grad_cx = [Num (orNum (bulb_positionX bulbSettings) 50), Lit ''%''],
      grad_cy = [Num (orNum (bulb_positionY bulbSettings) 50), Lit ''%''],
      grad_r = [Num (orNum (bulb_radius bulbSettings) 50), Lit ''%''],
      gradientUnits = ''objectBoundingBox'',
      spreadMethod = ''pad'',
      stops =
        [\<lparr>stop_offset = ''0%'',
          stopColor = orStr (bulb_color bulbSettings) ''#ffffff'',
          stopOpacity = orNum (bulb_intensity bulbSettings) 0 / 100\<rparr>,
         \<lparr>stop_offset = ''100%'',
          stopColor = orStr (bulb_color bulbSettings) ''#ffffff'',
          stopOpacity = 0\<rparr>]\<rparr>"

text \<open>The parameters of the filter with id \<^verbatim>\<open>glowFilter\<close>. A missing field makes the
  arithmetic NaN, which \<^verbatim>\<open>|| 0\<close> turns into 0.\<close>

record glow_filter =
  dilate_radius :: real
  offset_dx :: real
  offset_dy :: real
  blur_stdDeviation :: real
  alpha_slope :: real

definition glowFilter :: "glow_settings \<Rightarrow> real \<Rightarrow> glow_filter" where
  "glowFilter glowSettings pixelSize =
     \<lparr>dilate_radius = (case glow_spread glowSettings of None \<Rightarrow> 0 | Some s \<Rightarrow> s / 100 * pixelSize),
      offset_dx = orNum (glow_offsetX glowSettings) 0,
      offset_dy = orNum (glow_offsetY glowSettings) 0,
      blur_stdDeviation = (case glow_size glowSettings of None \<Rightarrow> 0 | Some s \<Rightarrow> s / 2),
      alpha_slope = (case glow_opacity glowSettings of None \<Rightarrow> 0 | Some s \<Rightarrow> s / 100)\<rparr>"

subsection \<open>The pixel elements\<close>

text \<open>An element of the pixels layer: a native circle or a path, with its React key, its
  fill, its filter reference and its blend mode.\<close>

datatype svg_elem =
    Circle (e_key: template) (e_cx: real) (e_cy: real) (e_r: real)
           (e_fill: string) (e_filter: "string option") (e_blend: "string option")
  | Pixel (e_key: template) (e_d: template)
          (e_fill: string) (e_filter: "string option") (e_blend: "string option")

record props =
  gridWidth :: int
  gridHeight :: int
  pixelSize :: real
  gridGap :: real
  pixelData :: "string option list list"
  showGrid :: bool
  cornerRadius :: "corner_radius option"
  pixelShape :: string
  customShape :: "custom_shape option"
  glowEnabled :: bool
  glowSettings :: glow_settings
  bulbEnabled :: bool
  bulbSettings :: bulb_settings

text \<open>\<^verbatim>\<open>pixelData[y]?.[x]\<close> followed by the truthiness test: an index outside the array
  gives \<^verbatim>\<open>undefined\<close>, and \<^verbatim>\<open>null\<close> and the empty string are falsy.\<close>

definition colorAt :: "string option list list \<Rightarrow> int \<Rightarrow> int \<Rightarrow> string option" where
  "colorAt grid x y =
     (if 0 \<le> y \<and> y < int (length grid) then
        (let row = grid ! nat y in
         if 0 \<le> x \<and> x < int (length row) then
           (case row ! nat x of
              None \<Rightarrow> None
            | Some c \<Rightarrow> if c = [] then None else Some c)
         else None)
      else None)"

record render_state =
  rs_cache :: path_cache
  glowPaths :: "svg_elem list"
  crispPaths :: "svg_elem list"
  bulbPaths :: "svg_elem list"

text \<open>The body of the two nested loops of \<^verbatim>\<open>renderPixels\<close> for one cell.\<close>

definition renderCell ::
  "(real \<Rightarrow> string) \<Rightarrow> props \<Rightarrow> render_state \<Rightarrow> int \<times> int \<Rightarrow> render_state" where
  "renderCell numberToString p st cell =
     (let x = fst cell; y = snd cell; cellSize = pixelSize p + gridGap p in
      case colorAt (pixelData p) x y of
        None \<Rightarrow> st
      | Some color \<Rightarrow>
          (let xPos = real_of_int x * cellSize + gridGap p / 2;
               yPos = real_of_int y * cellSize + gridGap p / 2;
               res = createShapePath numberToString (rs_cache st) xPos yPos (pixelSize p)
                       (pixelShape p) (cornerRadius p) (customShape p);
               pathData = fst res;
               baseKey = [Num (real_of_int x), Lit ''-'', Num (real_of_int y)];
               radius = pixelSize p / 2;
               centerX = xPos + radius;
               centerY = yPos + radius;
               crisp =
                 (if pixelShape p = ''circle''
                  then Circle (baseKey @ [Lit ''-pixel-circle'']) centerX centerY radius color
                         None None
                  else Pixel (baseKey @ [Lit ''-pixel'']) pathData color None None);
               glow =
                 (if pixelShape p = ''circle''
                  then Circle (baseKey @ [Lit ''-glow-circle'']) centerX centerY radius color
                         (Some ''url(#glowFilter)'')
                         (Some (orStr (glow_blendMode (glowSettings p)) ''source-over''))
                  else Pixel (baseKey @ [Lit ''-glow'']) pathData color
                         (Some ''url(#glowFilter)'')
                         (Some (orStr (glow_blendMode (glowSettings p)) ''source-over'')));
               bulb =
                 (if pixelShape p = ''circle''
                  then Circle (baseKey @ [Lit ''-bulb-circle'']) centerX centerY radius
                         ''url(#bulbGradient)'' None
                         (Some (orStr (bulb_blendMode (bulbSettings p)) ''screen''))
                  else Pixel (baseKey @ [Lit ''-bulb'']) pathData
                         ''url(#bulbGradient)'' None
                         (Some (orStr (bulb_blendMode (bulbSettings p)) ''screen'')))
           in \<lparr>rs_cache = snd res,
               glowPaths = (if glowEnabled p then glowPaths st @ [glow] else glowPaths st),
               crispPaths = crispPaths st @ [crisp],
               bulbPaths = (if bulbEnabled p then bulbPaths st @ [bulb] else bulbPaths st)\<rparr>))"

fun renderCells ::
  "(real \<Rightarrow> string) \<Rightarrow> props \<Rightarrow> render_state \<Rightarrow> (int \<times> int) list \<Rightarrow> render_state" where
  "renderCells numberToString p st [] = st"
| "renderCells numberToString p st (cell # cells) =
     renderCells numberToString p (renderCell numberToString p st cell) cells"

text \<open>The cells in the order the nested loops visit them: rows from \<open>startY\<close> to
  \<open>endY - 1\<close>, and in each row the columns from \<open>startX\<close> to \<open>endX - 1\<close>.\<close>

definition rowMajor :: "visible_range \<Rightarrow> (int \<times> int) list" where
  "rowMajor r =
     concat (map (\<lambda>y. map (\<lambda>x. (x, y)) [startX r..endX r - 1]) [startY r..endY r - 1])"

definition initialRender :: "path_cache \<Rightarrow> render_state" where
  "initialRender c = \<lparr>rs_cache = c, glowPaths = [], crispPaths = [], bulbPaths = []\<rparr>"

text \<open>The elements returned after visiting the given cells in the given order:
  \<^verbatim>\<open>[...glowPaths, ...crispPaths, ...bulbPaths]\<close>.\<close>

definition renderedElements ::
  "(real \<Rightarrow> string) \<Rightarrow> props \<Rightarrow> path_cache \<Rightarrow> (int \<times> int) list \<Rightarrow> svg_elem list" where
  "renderedElements numberToString p c cells =
     (let st = renderCells numberToString p (initialRender c) cells
      in glowPaths st @ crispPaths st @ bulbPaths st)"

definition renderPixels ::
  "(real \<Rightarrow> string) \<Rightarrow> props \<Rightarrow> visible_range \<Rightarrow> path_cache \<Rightarrow> svg_elem list" where
  "renderPixels numberToString p visibleArea' c =
     renderedElements numberToString p c (rowMajor visibleArea')"

text \<open>The layer of an element, read off the suffix of its key: 0 for a glow element, 1 for
  a crisp fill element, 2 for a bulb highlight element.\<close>

definition elemLayer :: "svg_elem \<Rightarrow> nat" where
  "elemLayer e =
     (if last (e_key e) = Lit ''-glow'' \<or> last (e_key e) = Lit ''-glow-circle'' then 0
      else if last (e_key e) = Lit ''-bulb'' \<or> last (e_key e) = Lit ''-bulb-circle'' then 2
      else 1)"

text \<open>The number of visited cells that hold a colour.\<close>

definition coloredCount :: "string option list list \<Rightarrow> (int \<times> int) list \<Rightarrow> nat" where
  "coloredCount grid cells = length (filter (\<lambda>c. colorAt grid (fst c) (snd c) \<noteq> None) cells)"

subsection \<open>The rendered document\<close>

datatype svg_node =
    Defs glow_filter radial_gradient
  | PixelsLayer "svg_elem list"
  | InteractionLayer real real
  | GridLayer "svg_line list"

text \<open>The children of the \<^verbatim>\<open>svg\<close> element in document order, for a given visible area;
  later children paint over earlier ones. The grid group is present only when
  \<^verbatim>\<open>showGrid\<close> holds.\<close>

definition svgChildren ::
  "(real \<Rightarrow> string) \<Rightarrow> props \<Rightarrow> visible_range \<Rightarrow> path_cache \<Rightarrow> svg_node list" where
  "svgChildren numberToString p visibleArea' c =
     (let totalWidth = real_of_int (gridWidth p) * (pixelSize p + gridGap p);
          totalHeight = real_of_int (gridHeight p) * (pixelSize p + gridGap p)
      in [Defs (glowFilter (glowSettings p) (pixelSize p)) (bulbGradient (bulbSettings p)),
          PixelsLayer (renderPixels numberToString p visibleArea' c),
          InteractionLayer totalWidth totalHeight]
         @ (if showGrid p then
              [GridLayer
                 (case gridLines (showGrid p) (pixelSize p) (gridGap p) visibleArea'
                         totalWidth totalHeight of
                    None \<Rightarrow> []
                  | Some lines \<Rightarrow> lines)]
            else []))"

text \<open>The component: the visible area is computed from the viewport state and shared by
  the pixel elements and the grid lines.\<close>

definition SVGRenderer ::
  "(real \<Rightarrow> string) \<Rightarrow> props \<Rightarrow> viewport \<Rightarrow> path_cache \<Rightarrow> svg_node list" where
  "SVGRenderer numberToString p viewportState c =
     svgChildren numberToString p
       (visibleArea viewportState (pixelSize p) (gridGap p) (gridWidth p) (gridHeight p)) c"

subsection \<open>The raster export\<close>

text \<open>
  The PNG and JPG branch of \<^verbatim>\<open>performExport\<close> draws on a canvas through the imported
  helpers \<^verbatim>\<open>drawGlowLayer\<close>, \<^verbatim>\<open>drawCrispPixel\<close>, \<^verbatim>\<open>drawBulbEffect\<close> and \<^verbatim>\<open>drawGrid\<close>.
  The model records the calls in the order they are made; a later call paints over an
  earlier one.
\<close>

datatype draw_call =
    DrawGlowLayer real real real string glow_settings "corner_radius option" string
  | DrawCrispPixel real real real string "corner_radius option" string
  | DrawBulbEffect real real real bulb_settings string "corner_radius option"
  | DrawGrid real real int int real real

definition fullGrid :: "int \<Rightarrow> int \<Rightarrow> (int \<times> int) list" where
  "fullGrid w h = concat (map (\<lambda>y. map (\<lambda>x. (x, y)) [0..w - 1]) [0..h - 1])"

text \<open>One pass over the whole grid: a call for every cell that holds a colour.\<close>

definition exportPass ::
  "props \<Rightarrow> (real \<Rightarrow> real \<Rightarrow> string \<Rightarrow> draw_call) \<Rightarrow> draw_call list" where
  "exportPass p draw =
     concat (map (\<lambda>cell.
        case colorAt (pixelData p) (fst cell) (snd cell) of
          None \<Rightarrow> []
        | Some color \<Rightarrow>
            (let exportCellSize = pixelSize p + gridGap p;
                 xPos = real_of_int (fst cell) * exportCellSize + gridGap p / 2;
                 yPos = real_of_int (snd cell) * exportCellSize + gridGap p / 2
             in [draw xPos yPos color]))
       (fullGrid (gridWidth p) (gridHeight p)))"

text \<open>
  \<^verbatim>\<open>cornerRadius.enabled\<close> is read without a guard: when \<^verbatim>\<open>cornerRadius\<close> is null the read
  throws a TypeError before the first pass, the \<^verbatim>\<open>catch\<close> of \<^verbatim>\<open>performExport\<close> reports it,
  and no draw call is made.
\<close>

datatype export_error = TypeError

definition exportDrawCalls :: "props \<Rightarrow> bool \<Rightarrow> export_error + draw_call list" where
  "exportDrawCalls p includeGrid =
     (case cornerRadius p of
        None \<Rightarrow> Inl TypeError
      | Some c \<Rightarrow>
          (let currentCornerRadius = (if enabled c then Some c else None);
               cellSize = pixelSize p + gridGap p;
               baseWidth = real_of_int (gridWidth p) * cellSize;
               baseHeight = real_of_int (gridHeight p) * cellSize
           in Inr
             ((if glowEnabled p then
                 exportPass p (\<lambda>xPos yPos color.
                   DrawGlowLayer xPos yPos (pixelSize p) color (glowSettings p)
                     currentCornerRadius (pixelShape p))
               else [])
              @ exportPass p (\<lambda>xPos yPos color.
                   DrawCrispPixel xPos yPos (pixelSize p) color currentCornerRadius
                     (pixelShape p))
              @ (if bulbEnabled p then
                   exportPass p (\<lambda>xPos yPos color.
                     DrawBulbEffect xPos yPos (pixelSize p) (bulbSettings p) (pixelShape p)
                       currentCornerRadius)
                 else [])
              @ (if includeGrid then
                   [DrawGrid baseWidth baseHeight (gridWidth p) (gridHeight p) (pixelSize p)
                      (gridGap p)]
                 else []))))"

text \<open>The draw calls an export made: none when it threw.\<close>

definition drawCallsMade :: "export_error + draw_call list \<Rightarrow> draw_call list" where
  "drawCallsMade r = (case r of Inl e \<Rightarrow> [] | Inr calls \<Rightarrow> calls)"

definition callLayer :: "draw_call \<Rightarrow> nat" where
  "callLayer c =
     (case c of
        DrawGlowLayer _ _ _ _ _ _ _ \<Rightarrow> 0
      | DrawCrispPixel _ _ _ _ _ _ \<Rightarrow> 1
      | DrawBulbEffect _ _ _ _ _ _ \<Rightarrow> 2
      | DrawGrid _ _ _ _ _ _ \<Rightarrow> 3)"

subsection \<open>Pointer positions\<close>











subsection \<open>Image import\<close>

record sampled_pixel =
  sp_r :: "8 word"
  sp_g :: "8 word"
  sp_b :: "8 word"
  sp_index :: nat

text \<open>
  The sampling loop over \<^verbatim>\<open>imageData.data\<close>, a byte array; \<open>i\<close> advances by 4 while it
  is below the length. A read past the end gives \<^verbatim>\<open>undefined\<close>, which is not greater than
  128, so the alpha test fails there.
\<close>

function samplePixels :: "8 word list \<Rightarrow> nat \<Rightarrow> sampled_pixel list \<Rightarrow> sampled_pixel list" where
  "samplePixels data i pixels =
     (if i < length data then
        samplePixels data (i + 4)
          (if i + 3 < length data \<and> 128 < data ! (i + 3)
           then pixels @ [\<lparr>sp_r = data ! i, sp_g = data ! (i + 1), sp_b = data ! (i + 2),
                            sp_index = i div 4\<rparr>]
           else pixels)
      else pixels)"
  by pat_completeness auto
termination
  by (relation "measure (\<lambda>(data, i, pixels). length data - i)") auto

declare samplePixels.simps [simp del]

text \<open>
  An image is a list of rows of RGBA pixels. \<^verbatim>\<open>getImageData\<close> lays it out row by row,
  four bytes to a pixel.
\<close>

type_synonym rgba = "8 word \<times> 8 word \<times> 8 word \<times> 8 word"

definition pixelBytes :: "rgba list \<Rightarrow> 8 word list" where
  "pixelBytes px = concat (map (\<lambda>(r, g, b, a). [r, g, b, a]) px)"

definition imageData :: "rgba list list \<Rightarrow> 8 word list" where
  "imageData rows = pixelBytes (concat rows)"

definition alphaOf :: "rgba \<Rightarrow> 8 word" where
  "alphaOf q = (case q of (r, g, b, a) \<Rightarrow> a)"

definition sampleOf :: "nat \<Rightarrow> rgba \<Rightarrow> sampled_pixel" where
  "sampleOf j q = (case q of (r, g, b, a) \<Rightarrow> \<lparr>sp_r = r, sp_g = g, sp_b = b, sp_index = j\<rparr>)"

text \<open>The spec's description of the sample list: the pixels whose alpha exceeds 128, in
  order, each with its position in the flattened image.\<close>

definition opaqueSamples :: "nat \<Rightarrow> rgba list \<Rightarrow> sampled_pixel list" where
  "opaqueSamples k px =
     map (\<lambda>(j, q). sampleOf j q) (filter (\<lambda>(j, q). 128 < alphaOf q) (enumerate k px))"

record cluster =
  center_r :: int
  center_g :: int
  center_b :: int
  cluster_pixels :: "sampled_pixel list"

record import_settings =
  set_width :: string
  set_height :: string
  set_maxColors :: string

record app_state =
  gridDimensions :: "int \<times> int"
  pixelGrid :: "string option list list"
  colorHistory :: "string list"
  hasDrawn :: bool
  importModalOpen :: bool
  importImageUrl :: "string option"

text \<open>
  What the handler uses from outside the two source files: \<^verbatim>\<open>parseInt\<close> (\<open>None\<close> is
  NaN), \<^verbatim>\<open>resizeGrid\<close> of the artwork hook, the decoding of the cropped image onto a
  canvas of the target size (\<open>None\<close> when loading fails or no context is available, which
  throws), \<^verbatim>\<open>kMeansClustering\<close> and \<^verbatim>\<open>rgbToHex\<close>. The text of the alert in the
  \<^verbatim>\<open>catch\<close> branch is kept without the error message.
\<close>

record env =
  parseInt :: "string \<Rightarrow> int option"
  resizeGrid :: "int \<Rightarrow> int \<Rightarrow> app_state \<Rightarrow> app_state"
  decodeImage :: "string \<Rightarrow> int \<Rightarrow> int \<Rightarrow> 8 word list option"
  kMeansClustering :: "sampled_pixel list \<Rightarrow> int \<Rightarrow> cluster list"
  rgbToHex :: "int \<Rightarrow> int \<Rightarrow> int \<Rightarrow> string"

text \<open>The calls the handler makes that are visible outside it, in order.\<close>

datatype effect =
    ConsoleError string
  | Alert string
  | ResizeGridCall int int
  | KMeansCall "sampled_pixel list" int

definition MAX_HISTORY_LENGTH :: nat where
  "MAX_HISTORY_LENGTH = 256"

text \<open>\<^verbatim>\<open>[...new Set(xs)]\<close>: the first occurrence of every element, in order.\<close>

fun uniqueInOrder :: "'a list \<Rightarrow> 'a list" where
  "uniqueInOrder [] = []"
| "uniqueInOrder (x # xs) = x # uniqueInOrder (filter (\<lambda>y. y \<noteq> x) xs)"

text \<open>Comparisons with a parsed number; every comparison with NaN is false.\<close>

definition jsGreater :: "int option \<Rightarrow> int \<Rightarrow> bool" where
  "jsGreater a n = (case a of None \<Rightarrow> False | Some v \<Rightarrow> n < v)"

definition jsAtLeast :: "int option \<Rightarrow> int \<Rightarrow> bool" where
  "jsAtLeast a n = (case a of None \<Rightarrow> False | Some v \<Rightarrow> n \<le> v)"

definition jsAtMost :: "int option \<Rightarrow> int \<Rightarrow> bool" where
  "jsAtMost a n = (case a of None \<Rightarrow> False | Some v \<Rightarrow> v \<le> n)"

text \<open>Step 7 of the handler: writing the colour of each cluster to the cells of its
  pixels. The target width is positive here, so \<open>x\<close> and \<open>y\<close> are not negative.\<close>

definition paintPixel :: "int \<Rightarrow> string \<Rightarrow> string option list list \<Rightarrow> sampled_pixel
    \<Rightarrow> string option list list" where
  "paintPixel targetWidth hexColor grid pixel =
     (let x = int (sp_index pixel) mod targetWidth;
          y = int (sp_index pixel) div targetWidth
      in if y < int (length grid) \<and> x < int (length (grid ! 0))
         then grid[nat y := (grid ! nat y)[nat x := Some hexColor]]
         else grid)"

definition paintCluster :: "env \<Rightarrow> int \<Rightarrow> string option list list \<times> string list \<Rightarrow> cluster
    \<Rightarrow> string option list list \<times> string list" where
  "paintCluster ev targetWidth acc cl =
     (let hexColor = rgbToHex ev (center_r cl) (center_g cl) (center_b cl)
      in (foldl (paintPixel targetWidth hexColor) (fst acc) (cluster_pixels cl),
          snd acc @ [hexColor]))"

definition handleImageImport ::
  "env \<Rightarrow> string option \<Rightarrow> import_settings option \<Rightarrow> app_state \<Rightarrow> app_state \<times> effect list" where
  "handleImageImport ev croppedDataUrl settings st =
     (case (croppedDataUrl, settings) of
        (Some url, Some s) \<Rightarrow>
          if url = [] then
            (st\<lparr>importModalOpen := False, importImageUrl := None\<rparr>,
             [ConsoleError ''Import failed: Missing image data or settings.''])
          else
            (let targetWidth = parseInt ev (set_width s);
                 targetHeight = parseInt ev (set_height s);
                 colorLimit = parseInt ev (set_maxColors s)
             in if \<not> (jsGreater targetWidth 0 \<and> jsGreater targetHeight 0
                       \<and> jsAtLeast colorLimit 2 \<and> jsAtMost colorLimit 256)
                then
                  (st,
                   [ConsoleError ''Import failed: Invalid width, height, or max colors.'',
                    Alert ''Invalid import settings. Width/Height must be > 0, Max Colors must be between 2 and 256.''])
                else
                  (let w = the targetWidth; h = the targetHeight; k = the colorLimit;
                       st1 = resizeGrid ev w h st
                   in case decodeImage ev url w h of
                        None \<Rightarrow>
                          (st1,
                           [ResizeGridCall w h,
                            ConsoleError ''Error during image import processing:'',
                            Alert ''Image import failed''])
                      | Some data \<Rightarrow>
                          (let pixels = samplePixels data 0 [];
                               clusters = kMeansClustering ev pixels k;
                               blank = replicate (nat h) (replicate (nat w) None);
                               painted = foldl (paintCluster ev w) (blank, []) clusters;
                               newPixelGrid = fst painted;
                               quantizedColors = uniqueInOrder (snd painted)
                           in (st1\<lparr>colorHistory :=
                                     take MAX_HISTORY_LENGTH
                                       (uniqueInOrder (quantizedColors @ colorHistory st1)),
                                   pixelGrid := newPixelGrid,
                                   hasDrawn := True,
                                   importModalOpen := False,
                                   importImageUrl := None\<rparr>,
                               [ResizeGridCall w h, KMeansCall pixels k]))))
      | _ \<Rightarrow>
          (st\<lparr>importModalOpen := False, importImageUrl := None\<rparr>,
           [ConsoleError ''Import failed: Missing image data or settings.'']))"

text \<open>Whether an effect is a resize of the grid or a call of the quantizer.\<close>

definition processes :: "effect \<Rightarrow> bool" where
  "processes e = (case e of ResizeGridCall _ _ \<Rightarrow> True | KMeansCall _ _ \<Rightarrow> True | _ \<Rightarrow> False)"

subsection \<open>Sample inputs\<close>







text \<open>A two-by-two artwork with one empty cell, the default corner configuration and both
  effects enabled.\<close>

definition sampleProps :: props where
  "sampleProps =
     \<lparr>gridWidth = 2, gridHeight = 2, pixelSize = 10, gridGap = 0,
      pixelData = [[Some ''#ff0000'', None], [Some ''#00ff00'', Some ''#0000ff'']],
      showGrid = True,
      cornerRadius = Some \<lparr>enabled = False, topLeft = 0, topRight = 0, bottomLeft = 0,
        bottomRight = 0\<rparr>,
      pixelShape = ''rectangle'', customShape = None,
      glowEnabled = True,
      glowSettings = \<lparr>glow_size = Some 5, glow_intensity = Some 100, glow_spread = Some 0,
        glow_offsetX = Some 0, glow_offsetY = Some 0, glow_opacity = Some 100,
        glow_blendMode = None\<rparr>,
      bulbEnabled = True,
      bulbSettings = \<lparr>bulb_intensity = Some 50, bulb_radius = Some 50,
        bulb_positionX = Some 50, bulb_positionY = Some 50, bulb_color = Some ''#ffffff'',
        bulb_blendMode = None\<rparr>\<rparr>"

definition sampleViewport :: viewport where
  "sampleViewport = \<lparr>vp_left = 0, vp_top = 0, vp_width = 15, vp_height = 15, vp_scale = 1\<rparr>"

text \<open>Bulb settings that put the highlight on the left edge of the cell.\<close>

definition leftEdgeBulb :: bulb_settings where
  "leftEdgeBulb =
     \<lparr>bulb_intensity = Some 50, bulb_radius = Some 50, bulb_positionX = Some 0,
      bulb_positionY = Some 50, bulb_color = Some ''#ffffff'', bulb_blendMode = Some ''screen''\<rparr>"

text \<open>The same artwork settings on a grid of 100 by 100 cells.\<close>

definition wideProps :: props where
  "wideProps = sampleProps\<lparr>gridWidth := 100, gridHeight := 100\<rparr>"

text \<open>A two-by-two image with alpha values 255, 128, 129 and 0.\<close>

definition sampleImage :: "rgba list list" where
  "sampleImage = [[(255, 0, 0, 255), (0, 255, 0, 128)], [(0, 0, 255, 129), (1, 2, 3, 0)]]"

text \<open>An environment for the import handler: a parser that knows three numerals, a resize
  that blanks the grid, an image that decodes to \<open>sampleImage\<close>, a quantizer that puts
  all pixels in one cluster, and a constant colour.\<close>

definition sampleEnv :: env where
  "sampleEnv =
     \<lparr>parseInt = (\<lambda>s. if s = ''2'' then Some 2 else if s = ''0'' then Some 0
                        else if s = ''32'' then Some 32 else None),
      resizeGrid = (\<lambda>w h st. st\<lparr>gridDimensions := (w, h),
                                 pixelGrid := replicate (nat h) (replicate (nat w) None)\<rparr>),
      decodeImage = (\<lambda>url w h. Some (imageData sampleImage)),
      kMeansClustering = (\<lambda>pixels k.
        [\<lparr>center_r = 0, center_g = 0, center_b = 0, cluster_pixels = pixels\<rparr>]),
      rgbToHex = (\<lambda>r g b. ''#000000'')\<rparr>"

definition sampleState :: app_state where
  "sampleState =
     \<lparr>gridDimensions = (1, 1), pixelGrid = [[Some ''#123456'']], colorHistory = [''#123456''],
      hasDrawn = True, importModalOpen = True, importImageUrl = Some ''data:image/png''\<rparr>"






section \<open>Verified properties\<close>

subsection \<open>The sample printer\<close>

lemma digit_inj:
  assumes "a < 10" and "b < 10" and "''0123456789'' ! a = ''0123456789'' ! b"
  shows "a = b"
proof -
  have "distinct ''0123456789''" by simp
  moreover have "a < length ''0123456789''" "b < length ''0123456789''" using assms by simp_all
  ultimately show ?thesis using assms(3) by (simp only: nth_eq_iff_index_eq)
qed


lemma natToString_small: "n < 10 \<Longrightarrow> natToString n = [''0123456789'' ! n]"
  by (subst natToString.simps) simp

lemma natToString_large:
  "10 \<le> n \<Longrightarrow> natToString n = natToString (n div 10) @ [''0123456789'' ! (n mod 10)]"
  by (subst natToString.simps) simp

lemma natToString_nonempty: "natToString n \<noteq> []"
  by (subst natToString.simps) simp


lemma natToString_length2: "10 \<le> n \<Longrightarrow> 2 \<le> length (natToString n)"
proof -
  assume l: "10 \<le> n"
  have "natToString (n div 10) \<noteq> []" by (rule natToString_nonempty)
  then have "1 \<le> length (natToString (n div 10))" by (cases "natToString (n div 10)") simp_all
  then show ?thesis unfolding natToString_large [OF l] by simp
qed

lemma natToString_length1: "n < 10 \<Longrightarrow> length (natToString n) = 1"
  unfolding natToString_small by simp

lemma natToString_inj: "natToString n = natToString m \<Longrightarrow> n = m"
proof (induction n arbitrary: m rule: natToString.induct)
  case (1 n)
  note eq = \<open>natToString n = natToString m\<close>
  show ?case
  proof (cases "n < 10")
    case nsmall: True
    show ?thesis
    proof (cases "m < 10")
      case True
      have "[''0123456789'' ! n] = [''0123456789'' ! m]"
        using eq unfolding natToString_small [OF nsmall] natToString_small [OF True] .
      then show ?thesis using digit_inj [OF nsmall True] by simp
    next
      case False
      then have "2 \<le> length (natToString m)" by (intro natToString_length2) simp
      moreover have "length (natToString n) = 1" using nsmall by (rule natToString_length1)
      ultimately show ?thesis using arg_cong [OF eq, of length] by simp
    qed
  next
    case nlarge: False
    then have n10: "10 \<le> n" by simp
    show ?thesis
    proof (cases "m < 10")
      case True
      have "2 \<le> length (natToString n)" using n10 by (rule natToString_length2)
      moreover have "length (natToString m) = 1" using True by (rule natToString_length1)
      ultimately show ?thesis using arg_cong [OF eq, of length] by simp
    next
      case False
      then have m10: "10 \<le> m" by simp
      have "natToString (n div 10) @ [''0123456789'' ! (n mod 10)]
            = natToString (m div 10) @ [''0123456789'' ! (m mod 10)]"
        using eq unfolding natToString_large [OF n10] natToString_large [OF m10] .
      then have e: "natToString (n div 10) = natToString (m div 10)"
        "''0123456789'' ! (n mod 10) = ''0123456789'' ! (m mod 10)"
        by simp_all
      have d: "n div 10 = m div 10" using 1(1) [OF nlarge e(1)] .
      have "n mod 10 < 10" "m mod 10 < 10" by simp_all
      then have r: "n mod 10 = m mod 10" using e(2) by (rule digit_inj)
      have "n = n div 10 * 10 + n mod 10" by simp
      also have "\<dots> = m div 10 * 10 + m mod 10" using d r by simp
      also have "\<dots> = m" by simp
      finally show ?thesis .
    qed
  qed
qed

lemma decimalString_nat: "decimalString (real n) = natToString n"
  by (simp add: decimalString_def)



subsection \<open>The path cache\<close>

lemma cache_set_absent: "\<not> cache_has c k \<Longrightarrow> cache_set c k v = c @ [(k, v)]"
  by (induction c) (auto simp: cache_has_def)

lemma cache_delete_first:
  "distinct (map fst (e # r)) \<Longrightarrow> cache_delete (e # r) (fst e) = r"
proof -
  assume d: "distinct (map fst (e # r))"
  then have "\<forall>e' \<in> set r. fst e' \<noteq> fst e" by (auto simp: image_iff)
  then have "filter (\<lambda>e'. fst e' \<noteq> fst e) r = r" by (simp add: filter_id_conv)
  then show ?thesis by (simp add: cache_delete_def)
qed

lemma cache_get_has:
  "cache_has c k \<Longrightarrow> \<exists>p. cache_get c k = Some p \<and> (k, p) \<in> set c"
  unfolding cache_has_def cache_get_def
  by (induction c) auto

lemma createShapePath_hit:
  assumes "cache_has c (cacheKey fmt x y sz shape cr cs)"
  shows "snd (createShapePath fmt c x y sz shape cr cs) = c"
    and "(cacheKey fmt x y sz shape cr cs, fst (createShapePath fmt c x y sz shape cr cs)) \<in> set c"
  using cache_get_has [OF assms] assms
  by (auto simp: createShapePath_def Let_def)

lemma createShapePath_miss:
  assumes "\<not> cache_has c (cacheKey fmt x y sz shape cr cs)" and "distinct (map fst c)"
  shows "fst (createShapePath fmt c x y sz shape cr cs) = shapePath x y sz shape cr cs"
    and "snd (createShapePath fmt c x y sz shape cr cs) =
           (if length c < 1000
            then c @ [(cacheKey fmt x y sz shape cr cs, shapePath x y sz shape cr cs)]
            else tl c @ [(cacheKey fmt x y sz shape cr cs, shapePath x y sz shape cr cs)])"
proof -
  let ?k = "cacheKey fmt x y sz shape cr cs" and ?p = "shapePath x y sz shape cr cs"
  show "fst (createShapePath fmt c x y sz shape cr cs) = ?p"
    using assms(1) by (simp add: createShapePath_def Let_def)
  have s: "cache_set c ?k ?p = c @ [(?k, ?p)]" using assms(1) by (rule cache_set_absent)
  show "snd (createShapePath fmt c x y sz shape cr cs) =
           (if length c < 1000 then c @ [(?k, ?p)] else tl c @ [(?k, ?p)])"
  proof (cases "length c < 1000")
    case True
    then show ?thesis using assms(1) by (simp add: createShapePath_def Let_def s)
  next
    case False
    then obtain e r where c: "c = e # r" by (cases c) auto
    have d: "distinct (map fst (e # (r @ [(?k, ?p)])))"
      using assms by (auto simp: c cache_has_def)
    have "cache_delete (e # (r @ [(?k, ?p)])) (fst e) = r @ [(?k, ?p)]"
      using d by (rule cache_delete_first)
    moreover have "snd (createShapePath fmt c x y sz shape cr cs) =
        cache_delete (e # (r @ [(?k, ?p)])) (fst e)"
      using False assms(1) unfolding createShapePath_def Let_def s
      by (simp add: c cache_first_key_def)
    ultimately show ?thesis using False by (simp add: c)
  qed
qed

lemma call_hit:
  "cache_has c (callKey fmt a) \<Longrightarrow> snd (callShapePath fmt c a) = c"
  "cache_has c (callKey fmt a) \<Longrightarrow> (callKey fmt a, fst (callShapePath fmt c a)) \<in> set c"
  by (simp_all add: callShapePath_def callKey_def createShapePath_hit)

lemma call_miss:
  assumes "\<not> cache_has c (callKey fmt a)" and "distinct (map fst c)"
  shows "fst (callShapePath fmt c a) = callPath a"
    and "snd (callShapePath fmt c a) =
           (if length c < 1000 then c @ [(callKey fmt a, callPath a)]
            else tl c @ [(callKey fmt a, callPath a)])"
  using assms createShapePath_miss [of c fmt "call_x a" "call_y a" "call_size a" "call_shape a"
      "call_cornerRadius a" "call_customShape a"]
  by (simp_all add: callShapePath_def callKey_def callPath_def)

lemma cache_ok_empty: "cache_ok fmt []"
  by (simp add: cache_ok_def)

lemma cache_ok_step:
  assumes "cache_ok fmt c"
  shows "cache_ok fmt (snd (callShapePath fmt c a))"
proof (cases "cache_has c (callKey fmt a)")
  case True
  then show ?thesis using assms by (simp add: call_hit)
next
  case False
  have d: "distinct (map fst c)" and l: "length c \<le> 1000"
    and v: "\<forall>e \<in> set c. \<exists>a. fst e = callKey fmt a \<and> snd e = callPath a"
    using assms by (simp_all add: cache_ok_def)
  have nk: "callKey fmt a \<notin> fst ` set c" using False by (simp add: cache_has_def)
  show ?thesis
  proof (cases "length c < 1000")
    case True
    then have "snd (callShapePath fmt c a) = c @ [(callKey fmt a, callPath a)]"
      using call_miss(2) [OF False d] by simp
    then show ?thesis using d l v nk True by (auto simp: cache_ok_def)
  next
    case F: False
    then have s: "snd (callShapePath fmt c a) = tl c @ [(callKey fmt a, callPath a)]"
      using call_miss(2) [OF False d] by simp
    have "distinct (map fst (tl c))" using d by (simp add: distinct_tl map_tl)
    moreover have "set (tl c) \<subseteq> set c" by (cases c) auto
    moreover have "length (tl c) < 1000" using l F by (cases c) auto
    ultimately show ?thesis using v nk unfolding s cache_ok_def by auto
  qed
qed

lemma cache_ok_after: "cache_ok fmt c \<Longrightarrow> cache_ok fmt (cacheAfter fmt c as)"
  by (induction as arbitrary: c) (simp_all add: cache_ok_step)

lemma lastN_short: "length xs \<le> n \<Longrightarrow> lastN n xs = xs"
  by (simp add: lastN_def)

lemma lastN_lastN_append: "lastN n (lastN n xs @ ys) = lastN n (xs @ ys)"
proof (cases "length xs \<le> n")
  case True
  then show ?thesis by (simp add: lastN_short)
next
  case False
  then have "length xs + length ys - (length xs - n + n) + (length xs - n)
             = length xs + length ys - n" by simp
  then show ?thesis by (simp add: lastN_def)
qed

lemma call_miss_lastN:
  assumes "\<not> cache_has c (callKey fmt a)" and "cache_ok fmt c"
  shows "snd (callShapePath fmt c a) = lastN 1000 (c @ [(callKey fmt a, callPath a)])"
proof -
  have d: "distinct (map fst c)" and l: "length c \<le> 1000"
    using assms(2) by (simp_all add: cache_ok_def)
  show ?thesis
  proof (cases "length c < 1000")
    case True
    then show ?thesis using call_miss(2) [OF assms(1) d] by (simp add: lastN_def)
  next
    case False
    then have "length c = 1000" using l by simp
    then show ?thesis using call_miss(2) [OF assms(1) d]
      by (cases c) (simp_all add: lastN_def)
  qed
qed

lemma cacheAfter_lastN:
  "cache_ok fmt c \<Longrightarrow> cacheAfter fmt c as = lastN 1000 (c @ insertions fmt c as)"
proof (induction as arbitrary: c)
  case Nil
  then show ?case by (simp add: lastN_short cache_ok_def)
next
  case (Cons a as)
  show ?case
  proof (cases "cache_has c (callKey fmt a)")
    case True
    then show ?thesis using Cons by (simp add: call_hit)
  next
    case False
    let ?c1 = "snd (callShapePath fmt c a)"
    have ok1: "cache_ok fmt ?c1" using Cons.prems by (rule cache_ok_step)
    have "cacheAfter fmt c (a # as) = lastN 1000 (?c1 @ insertions fmt ?c1 as)"
      using Cons.IH [OF ok1] by simp
    also have "\<dots> = lastN 1000 (lastN 1000 (c @ [(callKey fmt a, callPath a)])
                         @ insertions fmt ?c1 as)"
      using call_miss_lastN [OF False Cons.prems] by simp
    also have "\<dots> = lastN 1000 ((c @ [(callKey fmt a, callPath a)]) @ insertions fmt ?c1 as)"
      by (rule lastN_lastN_append)
    finally show ?thesis using False by simp
  qed
qed

lemma cacheAfter_snoc:
  "cacheAfter fmt c (as @ [a]) = snd (callShapePath fmt (cacheAfter fmt c as) a)"
  by (induction as arbitrary: c) simp_all

lemma reachable_ok: "cache_ok fmt (cacheAfter fmt [] calls)"
  by (rule cache_ok_after [OF cache_ok_empty])

lemma rectKey_inj:
  "callKey decimalString (rectCall i) = callKey decimalString (rectCall j) \<Longrightarrow> i = j"
proof -
  assume "callKey decimalString (rectCall i) = callKey decimalString (rectCall j)"
  then have "natToString i = natToString j"
    by (simp add: callKey_def rectCall_def cacheKey_def decimalString_nat)
  then show ?thesis by (rule natToString_inj)
qed

lemma rect_cache_fill:
  "n \<le> 1000 \<Longrightarrow> cacheAfter decimalString [] (map rectCall [0..<n]) = map rectEntry [0..<n]"
proof (induction n)
  case 0
  then show ?case by simp
next
  case (Suc n)
  let ?c = "map rectEntry [0..<n]"
  have c: "cacheAfter decimalString [] (map rectCall [0..<n]) = ?c" using Suc by simp
  have miss: "\<not> cache_has ?c (callKey decimalString (rectCall n))"
    by (auto simp: cache_has_def rectEntry_def dest!: rectKey_inj)
  have "inj_on (\<lambda>i. callKey decimalString (rectCall i)) (set [0..<n])"
    using rectKey_inj by (auto simp: inj_on_def)
  then have d: "distinct (map fst ?c)"
    by (simp add: distinct_map rectEntry_def comp_def)
  have "snd (callShapePath decimalString ?c (rectCall n)) = ?c @ [rectEntry n]"
    using call_miss(2) [OF miss d] Suc.prems by (simp add: rectEntry_def)
  then show ?case by (simp add: cacheAfter_snoc c)
qed

text \<open>
  Claim C3. For every printer of numbers, starting from the empty cache of the module,
  after every sequence of calls to the shape-path generator the cache holds at most 1000
  entries; it is the last 1000 entries inserted, in insertion order. A call that hits
  leaves the cache as it is; a call that misses appends its entry; and when that insertion
  would make 1001 entries, exactly the entry inserted earliest (the head) is dropped and
  every other entry stays.
\<close>

theorem pathCache_bounded_fifo:
  "length (cacheAfter fmt [] calls) \<le> 1000
   \<and> cacheAfter fmt [] calls = lastN 1000 (insertions fmt [] calls)
   \<and> (cache_has (cacheAfter fmt [] calls) (callKey fmt a) \<longrightarrow>
        cacheAfter fmt [] (calls @ [a]) = cacheAfter fmt [] calls)
   \<and> (\<not> cache_has (cacheAfter fmt [] calls) (callKey fmt a)
        \<and> length (cacheAfter fmt [] calls) < 1000 \<longrightarrow>
        cacheAfter fmt [] (calls @ [a]) = cacheAfter fmt [] calls @ [(callKey fmt a, callPath a)])
   \<and> (\<not> cache_has (cacheAfter fmt [] calls) (callKey fmt a)
        \<and> length (cacheAfter fmt [] calls) = 1000 \<longrightarrow>
        cacheAfter fmt [] calls \<noteq> [] \<and>
        cacheAfter fmt [] (calls @ [a]) =
          tl (cacheAfter fmt [] calls) @ [(callKey fmt a, callPath a)])"
proof -
  let ?c = "cacheAfter fmt [] calls"
  have ok: "cache_ok fmt ?c" by (rule reachable_ok)
  then have d: "distinct (map fst ?c)" and l: "length ?c \<le> 1000"
    by (simp_all add: cache_ok_def)
  have f: "?c = lastN 1000 (insertions fmt [] calls)"
    using cacheAfter_lastN [OF cache_ok_empty, of fmt calls] by simp
  have h: "cache_has ?c (callKey fmt a) \<Longrightarrow> cacheAfter fmt [] (calls @ [a]) = ?c"
    by (simp add: cacheAfter_snoc call_hit)
  have m1: "\<not> cache_has ?c (callKey fmt a) \<Longrightarrow> length ?c < 1000 \<Longrightarrow>
      cacheAfter fmt [] (calls @ [a]) = ?c @ [(callKey fmt a, callPath a)]"
    using call_miss(2) [of ?c fmt a] d by (simp add: cacheAfter_snoc)
  have m2: "\<not> cache_has ?c (callKey fmt a) \<Longrightarrow> length ?c = 1000 \<Longrightarrow>
      ?c \<noteq> [] \<and> cacheAfter fmt [] (calls @ [a]) = tl ?c @ [(callKey fmt a, callPath a)]"
    using call_miss(2) [of ?c fmt a] d by (auto simp: cacheAfter_snoc)
  show ?thesis using l f h m1 m2 by blast
qed

lemma rect_cache_full:
  assumes "c = map rectEntry [0..<n]" and "0 < n"
  shows "\<not> cache_has c (callKey decimalString (rectCall n))" and "length c = n"
    and "hd c = rectEntry 0" and "rectEntry 0 \<notin> set (tl c @ [rectEntry n])"
proof -
  show "\<not> cache_has c (callKey decimalString (rectCall n))"
    unfolding assms(1) by (auto simp: cache_has_def rectEntry_def dest!: rectKey_inj)
  show "length c = n" unfolding assms(1) by simp
  show "hd c = rectEntry 0" unfolding assms(1) using assms(2) by (simp add: hd_map)
  have tl: "tl c = map rectEntry [Suc 0..<n]"
    unfolding assms(1) by (simp add: map_tl [symmetric])
  have "fst (rectEntry 0) \<notin> fst ` set (tl c @ [rectEntry n])"
    unfolding tl using assms(2) by (auto simp: rectEntry_def dest!: rectKey_inj)
  then show "rectEntry 0 \<notin> set (tl c @ [rectEntry n])" by force
qed

text \<open>Witness for C3: after 1000 rectangle calls at distinct positions the cache is full,
  the next distinct call evicts the entry of the first call and no other.\<close>

theorem pathCache_bounded_fifo_witness:
  "\<not> cache_has (cacheAfter decimalString [] (map rectCall [0..<1000]))
        (callKey decimalString (rectCall 1000))
   \<and> length (cacheAfter decimalString [] (map rectCall [0..<1000])) = 1000
   \<and> cacheAfter decimalString [] (map rectCall [0..<1000]) \<noteq> []
   \<and> cacheAfter decimalString [] (map rectCall [0..<1000] @ [rectCall 1000]) =
       tl (cacheAfter decimalString [] (map rectCall [0..<1000])) @ [rectEntry 1000]
   \<and> hd (cacheAfter decimalString [] (map rectCall [0..<1000])) = rectEntry 0
   \<and> rectEntry 0
       \<notin> set (cacheAfter decimalString [] (map rectCall [0..<1000] @ [rectCall 1000]))"
proof -
  let ?c = "cacheAfter decimalString [] (map rectCall [0..<1000])"
  have c: "?c = map rectEntry [0..<1000]" by (rule rect_cache_fill) simp
  note f = rect_cache_full [OF c]
  have miss: "\<not> cache_has ?c (callKey decimalString (rectCall 1000))" by (rule f(1)) simp
  have len: "length ?c = 1000" by (rule f(2)) simp
  have hd: "hd ?c = rectEntry 0" by (rule f(3)) simp
  have out: "rectEntry 0 \<notin> set (tl ?c @ [rectEntry 1000])" by (rule f(4)) simp
  have "\<not> cache_has ?c (callKey decimalString (rectCall 1000)) \<and> length ?c = 1000 \<longrightarrow>
        ?c \<noteq> [] \<and> cacheAfter decimalString [] (map rectCall [0..<1000] @ [rectCall 1000]) =
        tl ?c @ [(callKey decimalString (rectCall 1000), callPath (rectCall 1000))]"
    using pathCache_bounded_fifo [of decimalString "map rectCall [0..<1000]" "rectCall 1000"]
    by blast
  then have step: "?c \<noteq> []
      \<and> cacheAfter decimalString [] (map rectCall [0..<1000] @ [rectCall 1000]) =
        tl ?c @ [rectEntry 1000]"
    using miss len unfolding rectEntry_def by blast
  show ?thesis using miss len step hd out by (simp only:) blast
qed

subsection \<open>Custom shapes and rounded corners\<close>















subsection \<open>Composite order\<close>

lemma renderCell_empty:
  "colorAt (pixelData p) (fst cell) (snd cell) = None \<Longrightarrow> renderCell fmt p st cell = st"
  by (simp add: renderCell_def Let_def)

lemma renderCell_colored:
  assumes "colorAt (pixelData p) (fst cell) (snd cell) = Some color"
  shows "map elemLayer (glowPaths (renderCell fmt p st cell)) =
           map elemLayer (glowPaths st) @ (if glowEnabled p then [0] else [])"
    and "map elemLayer (crispPaths (renderCell fmt p st cell)) =
           map elemLayer (crispPaths st) @ [1]"
    and "map elemLayer (bulbPaths (renderCell fmt p st cell)) =
           map elemLayer (bulbPaths st) @ (if bulbEnabled p then [2] else [])"
  using assms by (simp_all add: renderCell_def Let_def elemLayer_def)

lemma renderCells_layers:
  "map elemLayer (glowPaths (renderCells fmt p st cells)) =
     map elemLayer (glowPaths st)
       @ replicate (if glowEnabled p then coloredCount (pixelData p) cells else 0) 0
   \<and> map elemLayer (crispPaths (renderCells fmt p st cells)) =
     map elemLayer (crispPaths st) @ replicate (coloredCount (pixelData p) cells) 1
   \<and> map elemLayer (bulbPaths (renderCells fmt p st cells)) =
     map elemLayer (bulbPaths st)
       @ replicate (if bulbEnabled p then coloredCount (pixelData p) cells else 0) 2"
proof (induction cells arbitrary: st)
  case Nil
  then show ?case by (simp add: coloredCount_def)
next
  case (Cons cell cells)
  show ?case
  proof (cases "colorAt (pixelData p) (fst cell) (snd cell)")
    case None
    then show ?thesis using Cons [of st] by (simp add: renderCell_empty coloredCount_def)
  next
    case (Some color)
    have n: "coloredCount (pixelData p) (cell # cells) = Suc (coloredCount (pixelData p) cells)"
      using Some by (simp add: coloredCount_def)
    show ?thesis
      using Cons [of "renderCell fmt p st cell"] renderCell_colored [OF Some, of fmt st]
      by (simp add: n replicate_app_Cons_same)
  qed
qed

lemma renderedElements_layers:
  "map elemLayer (renderedElements fmt p c cells) =
     replicate (if glowEnabled p then coloredCount (pixelData p) cells else 0) 0
     @ replicate (coloredCount (pixelData p) cells) 1
     @ replicate (if bulbEnabled p then coloredCount (pixelData p) cells else 0) 2"
  using renderCells_layers [of fmt p "initialRender c" cells]
  by (simp add: renderedElements_def Let_def initialRender_def)

lemma sorted_before:
  assumes "sorted (map f xs)" and "i < length xs" and "j < length xs" and "f (xs ! i) < f (xs ! j)"
  shows "i < j"
proof (rule ccontr)
  assume "\<not> i < j"
  then have "j \<le> i" by simp
  then have "map f xs ! j \<le> map f xs ! i"
    using assms(1,2) by (simp add: sorted_iff_nth_mono del: nth_map)
  then show False using assms(2,3,4) by simp
qed

lemma exportPass_layers:
  assumes "\<And>x y col. callLayer (draw x y col) = k"
  shows "map callLayer (exportPass p draw) =
           replicate (coloredCount (pixelData p) (fullGrid (gridWidth p) (gridHeight p))) k"
proof -
  have "map callLayer (concat (map (\<lambda>cell.
        case colorAt (pixelData p) (fst cell) (snd cell) of
          None \<Rightarrow> []
        | Some color \<Rightarrow>
            (let exportCellSize = pixelSize p + gridGap p;
                 xPos = real_of_int (fst cell) * exportCellSize + gridGap p / 2;
                 yPos = real_of_int (snd cell) * exportCellSize + gridGap p / 2
             in [draw xPos yPos color])) cells))
     = replicate (coloredCount (pixelData p) cells) k" for cells
    by (induction cells)
      (auto simp: coloredCount_def assms Let_def replicate_app_Cons_same split: option.splits)
  then show ?thesis by (simp add: exportPass_def)
qed

lemma exportDrawCalls_throws:
  "cornerRadius p = None \<Longrightarrow> exportDrawCalls p includeGrid = Inl TypeError"
  by (simp add: exportDrawCalls_def)

lemma exportDrawCalls_layers:
  assumes "cornerRadius p \<noteq> None"
  shows "\<exists>calls. exportDrawCalls p includeGrid = Inr calls \<and>
     map callLayer calls =
       replicate (if glowEnabled p
                  then coloredCount (pixelData p) (fullGrid (gridWidth p) (gridHeight p)) else 0) 0
       @ replicate (coloredCount (pixelData p) (fullGrid (gridWidth p) (gridHeight p))) 1
       @ replicate (if bulbEnabled p
                    then coloredCount (pixelData p) (fullGrid (gridWidth p) (gridHeight p)) else 0) 2
       @ replicate (if includeGrid then 1 else 0) 3"
proof -
  obtain c where c: "cornerRadius p = Some c" using assms by (cases "cornerRadius p") auto
  show ?thesis
    by (simp add: exportDrawCalls_def c Let_def exportPass_layers callLayer_def)
qed

lemma drawCallsMade_sorted: "sorted (map callLayer (drawCallsMade (exportDrawCalls p includeGrid)))"
proof (cases "cornerRadius p")
  case None
  then show ?thesis by (simp add: exportDrawCalls_throws drawCallsMade_def)
next
  case (Some c)
  then obtain calls where calls: "exportDrawCalls p includeGrid = Inr calls"
    and l: "map callLayer calls =
       replicate (if glowEnabled p
                  then coloredCount (pixelData p) (fullGrid (gridWidth p) (gridHeight p)) else 0) 0
       @ replicate (coloredCount (pixelData p) (fullGrid (gridWidth p) (gridHeight p))) 1
       @ replicate (if bulbEnabled p
                    then coloredCount (pixelData p) (fullGrid (gridWidth p) (gridHeight p)) else 0) 2
       @ replicate (if includeGrid then 1 else 0) 3"
    using exportDrawCalls_layers [of p includeGrid] by auto
  have "sorted (map callLayer calls)" unfolding l by (auto simp: sorted_append)
  then show ?thesis by (simp add: calls drawCallsMade_def)
qed

text \<open>
  Claim C1. With glow and bulb enabled, for every grid, every list of cells visited (in any
  order, so in particular the row-major order of a visible range, which is what
  \<open>renderPixels\<close> visits) and every cache state, the emitted elements are all glow elements,
  then all fill elements, then all bulb elements, one of each for every visited cell that
  holds a colour: an element of a lower layer always stands before an element of a higher
  layer. In the raster export every draw call of a lower layer is made before every draw
  call of a higher layer: with a corner configuration present the export makes the three
  passes over the full grid in this order, followed by the grid when it is included, and
  with a null corner configuration it throws before the first pass and makes no draw call.
\<close>

theorem composite_order:
  "glowEnabled p \<and> bulbEnabled p \<longrightarrow>
     (let out = renderedElements fmt p c cells; n = coloredCount (pixelData p) cells in
        map elemLayer out = replicate n 0 @ replicate n 1 @ replicate n 2
        \<and> (\<forall>i j. i < length out \<and> j < length out \<and> elemLayer (out ! i) < elemLayer (out ! j)
              \<longrightarrow> i < j))
     \<and> renderPixels fmt p area c = renderedElements fmt p c (rowMajor area)
     \<and> (let calls = drawCallsMade (exportDrawCalls p includeGrid) in
          \<forall>i j. i < length calls \<and> j < length calls \<and> callLayer (calls ! i) < callLayer (calls ! j)
              \<longrightarrow> i < j)
     \<and> (cornerRadius p \<noteq> None \<longrightarrow>
          (let m = coloredCount (pixelData p) (fullGrid (gridWidth p) (gridHeight p)) in
           \<exists>calls. exportDrawCalls p includeGrid = Inr calls
             \<and> map callLayer calls =
                 replicate m 0 @ replicate m 1 @ replicate m 2
                 @ (if includeGrid then [3] else [])))
     \<and> (cornerRadius p = None \<longrightarrow> exportDrawCalls p includeGrid = Inl TypeError)"
proof (intro impI)
  assume en: "glowEnabled p \<and> bulbEnabled p"
  let ?out = "renderedElements fmt p c cells" and ?n = "coloredCount (pixelData p) cells"
  let ?calls = "drawCallsMade (exportDrawCalls p includeGrid)"
  let ?m = "coloredCount (pixelData p) (fullGrid (gridWidth p) (gridHeight p))"
  have a: "map elemLayer ?out = replicate ?n 0 @ replicate ?n 1 @ replicate ?n 2"
    using en by (simp add: renderedElements_layers)
  have "sorted (map elemLayer ?out)"
    unfolding a by (auto simp: sorted_append)
  then have b: "\<forall>i j. i < length ?out \<and> j < length ?out \<and> elemLayer (?out ! i) < elemLayer (?out ! j)
              \<longrightarrow> i < j"
    using sorted_before [of elemLayer ?out] by blast
  have d: "\<forall>i j. i < length ?calls \<and> j < length ?calls
              \<and> callLayer (?calls ! i) < callLayer (?calls ! j) \<longrightarrow> i < j"
    using sorted_before [of callLayer ?calls] drawCallsMade_sorted [of p includeGrid] by blast
  have e: "cornerRadius p \<noteq> None \<longrightarrow>
          (\<exists>calls. exportDrawCalls p includeGrid = Inr calls
             \<and> map callLayer calls =
                 replicate ?m 0 @ replicate ?m 1 @ replicate ?m 2
                 @ (if includeGrid then [3] else []))"
  proof
    assume "cornerRadius p \<noteq> None"
    then obtain calls where "exportDrawCalls p includeGrid = Inr calls"
      and "map callLayer calls =
       replicate (if glowEnabled p then ?m else 0) 0 @ replicate ?m 1
       @ replicate (if bulbEnabled p then ?m else 0) 2
       @ replicate (if includeGrid then 1 else 0) 3"
      using exportDrawCalls_layers [of p includeGrid] by auto
    then have "exportDrawCalls p includeGrid = Inr calls
             \<and> map callLayer calls =
                 replicate ?m 0 @ replicate ?m 1 @ replicate ?m 2
                 @ (if includeGrid then [3] else [])"
      using en by simp
    then show "\<exists>calls. exportDrawCalls p includeGrid = Inr calls
             \<and> map callLayer calls =
                 replicate ?m 0 @ replicate ?m 1 @ replicate ?m 2
                 @ (if includeGrid then [3] else [])" by blast
  qed
  have f: "cornerRadius p = None \<longrightarrow> exportDrawCalls p includeGrid = Inl TypeError"
    by (simp add: exportDrawCalls_throws)
  show "(let out = renderedElements fmt p c cells; n = coloredCount (pixelData p) cells in
        map elemLayer out = replicate n 0 @ replicate n 1 @ replicate n 2
        \<and> (\<forall>i j. i < length out \<and> j < length out \<and> elemLayer (out ! i) < elemLayer (out ! j)
              \<longrightarrow> i < j))
     \<and> renderPixels fmt p area c = renderedElements fmt p c (rowMajor area)
     \<and> (let calls = drawCallsMade (exportDrawCalls p includeGrid) in
          \<forall>i j. i < length calls \<and> j < length calls \<and> callLayer (calls ! i) < callLayer (calls ! j)
              \<longrightarrow> i < j)
     \<and> (cornerRadius p \<noteq> None \<longrightarrow>
          (let m = coloredCount (pixelData p) (fullGrid (gridWidth p) (gridHeight p)) in
           \<exists>calls. exportDrawCalls p includeGrid = Inr calls
             \<and> map callLayer calls =
                 replicate m 0 @ replicate m 1 @ replicate m 2
                 @ (if includeGrid then [3] else [])))
     \<and> (cornerRadius p = None \<longrightarrow> exportDrawCalls p includeGrid = Inl TypeError)"
    unfolding Let_def renderPixels_def by (intro conjI a b d e f refl)
qed

lemma sample_counts:
  "coloredCount (pixelData sampleProps) [(1, 1), (0, 0), (1, 0), (0, 1)] = 3"
  "coloredCount (pixelData sampleProps)
     (fullGrid (gridWidth sampleProps) (gridHeight sampleProps)) = 3"
  by (simp_all add: coloredCount_def sampleProps_def colorAt_def fullGrid_def upto.simps)

text \<open>Witness for C1: a two-by-two grid with three coloured cells, visited in an order
  that is not row-major, its export with the grid, and the export with null corners.\<close>

theorem composite_order_witness:
  "glowEnabled sampleProps \<and> bulbEnabled sampleProps
   \<and> map elemLayer (renderedElements decimalString sampleProps []
        [(1, 1), (0, 0), (1, 0), (0, 1)])
       = [0, 0, 0, 1, 1, 1, 2, 2, 2]
   \<and> cornerRadius sampleProps \<noteq> None
   \<and> map callLayer (drawCallsMade (exportDrawCalls sampleProps True))
       = [0, 0, 0, 1, 1, 1, 2, 2, 2, 3]
   \<and> exportDrawCalls (sampleProps\<lparr>cornerRadius := None\<rparr>) True = Inl TypeError"
proof -
  have en: "glowEnabled sampleProps \<and> bulbEnabled sampleProps" by (simp add: sampleProps_def)
  have en': "glowEnabled (sampleProps\<lparr>cornerRadius := None\<rparr>)
      \<and> bulbEnabled (sampleProps\<lparr>cornerRadius := None\<rparr>)" by (simp add: sampleProps_def)
  have cr: "cornerRadius sampleProps \<noteq> None" by (simp add: sampleProps_def)
  have r3: "replicate 3 x = [x, x, x]" for x :: nat by (simp add: numeral_3_eq_3)
  note t = composite_order [of sampleProps decimalString "[]" "[(1, 1), (0, 0), (1, 0), (0, 1)]"
        "gridRange 2 2" True]
  have 1: "map elemLayer (renderedElements decimalString sampleProps []
        [(1, 1), (0, 0), (1, 0), (0, 1)]) = [0, 0, 0, 1, 1, 1, 2, 2, 2]"
    using en t by (simp add: Let_def sample_counts r3)
  have "\<exists>calls. exportDrawCalls sampleProps True = Inr calls
             \<and> map callLayer calls = [0, 0, 0, 1, 1, 1, 2, 2, 2, 3]"
    using en cr t by (simp add: Let_def sample_counts r3)
  then have 2: "map callLayer (drawCallsMade (exportDrawCalls sampleProps True))
       = [0, 0, 0, 1, 1, 1, 2, 2, 2, 3]"
    by (auto simp: drawCallsMade_def)
  have 3: "exportDrawCalls (sampleProps\<lparr>cornerRadius := None\<rparr>) True = Inl TypeError"
    using en' composite_order [of "sampleProps\<lparr>cornerRadius := None\<rparr>" decimalString "[]" "[]"
        "gridRange 2 2" True]
    by simp
  show ?thesis using en cr 1 2 3 by (simp only:) blast
qed

subsection \<open>The visible range\<close>

lemma window_lower:
  assumes "0 < cs" and "l \<le> (real_of_int x + 1) * cs" and "0 \<le> x"
  shows "max 0 (\<lfloor>l / cs\<rfloor> - 5) \<le> x"
proof -
  have "l / cs \<le> real_of_int (x + 1)" using assms(1,2) by (simp add: pos_divide_le_eq)
  then have "\<lfloor>l / cs\<rfloor> \<le> x + 1" by (simp add: floor_le_iff)
  then show ?thesis using assms(3) by simp
qed

lemma window_upper:
  assumes "0 < cs" and "real_of_int x * cs \<le> r" and "x < w"
  shows "x < min w (\<lceil>r / cs\<rceil> + 5)"
proof -
  have "real_of_int x \<le> r / cs" using assms(1,2) by (simp add: pos_le_divide_eq)
  then have "x \<le> \<lceil>r / cs\<rceil>" by (simp add: le_ceiling_iff)
  then show ?thesis using assms(3) by simp
qed

text \<open>
  Claim C2. For a positive cell size and a grid of at least one cell each way, the visible
  range contains every grid cell whose square meets the raw viewport rectangle; it is the
  raw index range (floor of the left and top edge, ceiling of the right and bottom edge,
  over the cell size) expanded by 5 on every side and clamped to the grid, so its cells are
  exactly the cells of the expanded range that lie in the grid; its lower bounds are at
  least 0 and its upper bounds at most the grid size; and for a 4 by 4 grid, cell size 10
  and the viewport from (0, 0) of width and height 15 it is 0 to 4 both ways.
\<close>

theorem visibleArea_contains_and_clamps:
  fixes pixelSize gridGap :: real and gridWidth gridHeight :: int
  assumes "0 < pixelSize + gridGap" and "1 \<le> gridWidth" and "1 \<le> gridHeight"
  shows
    "(\<forall>x y. 0 \<le> x \<and> x < gridWidth \<and> 0 \<le> y \<and> y < gridHeight
            \<and> cellIntersectsViewport v (pixelSize + gridGap) x y
         \<longrightarrow> (x, y) \<in> rangeCells (visibleArea v pixelSize gridGap gridWidth gridHeight))
     \<and> visibleArea v pixelSize gridGap gridWidth gridHeight
         = clampRange gridWidth gridHeight (expandRange 5 (rawRange v (pixelSize + gridGap)))
     \<and> rangeCells (visibleArea v pixelSize gridGap gridWidth gridHeight)
         = rangeCells (expandRange 5 (rawRange v (pixelSize + gridGap)))
           \<inter> rangeCells (gridRange gridWidth gridHeight)
     \<and> 0 \<le> startX (visibleArea v pixelSize gridGap gridWidth gridHeight)
     \<and> endX (visibleArea v pixelSize gridGap gridWidth gridHeight) \<le> gridWidth
     \<and> 0 \<le> startY (visibleArea v pixelSize gridGap gridWidth gridHeight)
     \<and> endY (visibleArea v pixelSize gridGap gridWidth gridHeight) \<le> gridHeight
     \<and> (pixelSize + gridGap = 10 \<longrightarrow>
          visibleArea \<lparr>vp_left = 0, vp_top = 0, vp_width = 15, vp_height = 15, vp_scale = 1\<rparr>
            pixelSize gridGap 4 4
          = \<lparr>startX = 0, endX = 4, startY = 0, endY = 4\<rparr>)"
proof -
  let ?cs = "pixelSize + gridGap"
  let ?a = "visibleArea v pixelSize gridGap gridWidth gridHeight"
  have contain: "(x, y) \<in> rangeCells ?a"
    if "0 \<le> x" "x < gridWidth" "0 \<le> y" "y < gridHeight" "cellIntersectsViewport v ?cs x y"
    for x y
  proof -
    have i: "real_of_int x * ?cs \<le> vp_left v + vp_width v" "vp_left v \<le> (real_of_int x + 1) * ?cs"
      "real_of_int y * ?cs \<le> vp_top v + vp_height v" "vp_top v \<le> (real_of_int y + 1) * ?cs"
      using that(5) by (simp_all add: cellIntersectsViewport_def)
    show ?thesis
      using window_lower [OF assms(1) i(2) that(1)] window_upper [OF assms(1) i(1) that(2)]
        window_lower [OF assms(1) i(4) that(3)] window_upper [OF assms(1) i(3) that(4)]
      by (simp add: rangeCells_def visibleArea_def Let_def)
  qed
  have eq: "?a = clampRange gridWidth gridHeight (expandRange 5 (rawRange v ?cs))"
    by (simp add: visibleArea_def clampRange_def expandRange_def rawRange_def Let_def)
  have cells: "rangeCells ?a = rangeCells (expandRange 5 (rawRange v ?cs))
           \<inter> rangeCells (gridRange gridWidth gridHeight)"
    unfolding eq by (auto simp: rangeCells_def clampRange_def gridRange_def)
  have bounds: "0 \<le> startX ?a" "endX ?a \<le> gridWidth" "0 \<le> startY ?a" "endY ?a \<le> gridHeight"
    by (simp_all add: visibleArea_def Let_def)
  have scen: "visibleArea \<lparr>vp_left = 0, vp_top = 0, vp_width = 15, vp_height = 15, vp_scale = 1\<rparr>
            pixelSize gridGap 4 4 = \<lparr>startX = 0, endX = 4, startY = 0, endY = 4\<rparr>"
    if "?cs = 10"
    by (simp add: visibleArea_def Let_def that)
  show ?thesis using contain eq cells bounds scen by (intro conjI allI impI) blast+
qed

text \<open>Witness for C2: pixel size 8 and gap 2 on a 4 by 4 grid; the raw range is 0 to 2 and
  the cell (1, 1), which meets the viewport, is in the visible range.\<close>

theorem visibleArea_contains_and_clamps_witness:
  "(0::real) < 8 + 2 \<and> (1::int) \<le> 4
   \<and> cellIntersectsViewport sampleViewport (8 + 2) 1 1
   \<and> (1, 1) \<in> rangeCells (visibleArea sampleViewport 8 2 4 4)
   \<and> visibleArea sampleViewport 8 2 4 4 = \<lparr>startX = 0, endX = 4, startY = 0, endY = 4\<rparr>
   \<and> rawRange sampleViewport (8 + 2) = \<lparr>startX = 0, endX = 2, startY = 0, endY = 2\<rparr>"
proof -
  have h: "(0::real) < 8 + 2" "(1::int) \<le> 4" by simp_all
  have i: "cellIntersectsViewport sampleViewport (8 + 2) 1 1"
    by (simp add: cellIntersectsViewport_def sampleViewport_def)
  have r: "rawRange sampleViewport (8 + 2) = \<lparr>startX = 0, endX = 2, startY = 0, endY = 2\<rparr>"
    by (simp add: rawRange_def sampleViewport_def)
  note t = visibleArea_contains_and_clamps [OF h(1) h(2) h(2), of sampleViewport]
  have m: "(1, 1) \<in> rangeCells (visibleArea sampleViewport 8 2 4 4)"
    using t [THEN conjunct1, rule_format, of 1 1] i by simp
  have "(8::real) + 2 = 10 \<longrightarrow>
          visibleArea \<lparr>vp_left = 0, vp_top = 0, vp_width = 15, vp_height = 15, vp_scale = 1\<rparr>
            8 2 4 4
          = \<lparr>startX = 0, endX = 4, startY = 0, endY = 4\<rparr>"
    using t by blast
  then have "visibleArea sampleViewport 8 2 4 4 = \<lparr>startX = 0, endX = 4, startY = 0, endY = 4\<rparr>"
    by (simp add: sampleViewport_def)
  then show ?thesis using h i r m by simp
qed

subsection \<open>The bulb gradient\<close>

lemma bulbGradient_configured:
  assumes "bulb_positionX b = Some px" "px \<noteq> 0" "bulb_positionY b = Some py" "py \<noteq> 0"
    "bulb_radius b = Some r" "r \<noteq> 0" "bulb_color b = Some col" "col \<noteq> []"
    "bulb_intensity b = Some i"
  shows "bulbGradient b =
     \<lparr>grad_cx = [Num px, Lit ''%''], grad_cy = [Num py, Lit ''%''], grad_r = [Num r, Lit ''%''],
      gradientUnits = ''objectBoundingBox'', spreadMethod = ''pad'',
      stops = [\<lparr>stop_offset = ''0%'', stopColor = col, stopOpacity = i / 100\<rparr>,
               \<lparr>stop_offset = ''100%'', stopColor = col, stopOpacity = 0\<rparr>]\<rparr>"
  using assms by (simp add: bulbGradient_def orNum_def orStr_def)

text \<open>
  Claim C6 at a configuration whose \<open>positionX\<close> is present and zero: the gradient is
  centred at 50 percent, not at 0 percent, because \<^verbatim>\<open>bulbSettings.positionX || 50\<close> takes
  the default for every falsy value.
\<close>

theorem bulb_zero_position_replaced:
  "bulb_positionX leftEdgeBulb = Some 0
   \<and> grad_cx (bulbGradient leftEdgeBulb) = [Num 50, Lit ''%'']
   \<and> grad_cx (bulbGradient leftEdgeBulb) \<noteq> [Num 0, Lit ''%'']"
  by (simp add: bulbGradient_def leftEdgeBulb_def orNum_def)

subsection \<open>Grid lines\<close>

lemma gridLines_shown:
  "gridLines True ps gg area tw th =
     Some (map (verticalLine (ps + gg) th) [startX area..endX area]
           @ map (horizontalLine (ps + gg) tw) [startY area..endY area])"
  by (simp add: gridLines_def Let_def)

text \<open>
  Claim C9. When the grid overlay is enabled, the grid group is the last child of the
  document, after the pixels layer (which holds the glow, fill and highlight elements) and
  the interaction layer. Its lines are exactly one vertical line for each boundary index
  \<open>x\<close> from \<open>startX\<close> to \<open>endX\<close> of the visible range, from
  \<open>(x * cellSize - 0.5, 0)\<close> to \<open>(x * cellSize - 0.5, totalHeight)\<close>, and one horizontal
  line for each boundary index \<open>y\<close> from \<open>startY\<close> to \<open>endY\<close>, from
  \<open>(0, y * cellSize - 0.5)\<close> to \<open>(totalWidth, y * cellSize - 0.5)\<close>; every line has
  stroke width 1; so the number of lines depends on the visible range and not on the size
  of the grid.
\<close>

theorem gridLines_last_visible_only:
  "showGrid p \<longrightarrow>
     (let cellSize = pixelSize p + gridGap p;
          totalWidth = real_of_int (gridWidth p) * cellSize;
          totalHeight = real_of_int (gridHeight p) * cellSize;
          lines =
            map (\<lambda>x. \<lparr>line_key = [Lit ''v'', Num (real_of_int x)],
                       x1 = real_of_int x * cellSize - 1 / 2, y1 = 0,
                       x2 = real_of_int x * cellSize - 1 / 2, y2 = totalHeight,
                       stroke = ''rgba(128, 128, 128, 0.5)'', strokeWidth = ''1''\<rparr>)
              [startX area..endX area]
            @ map (\<lambda>y. \<lparr>line_key = [Lit ''h'', Num (real_of_int y)],
                         x1 = 0, y1 = real_of_int y * cellSize - 1 / 2,
                         x2 = totalWidth, y2 = real_of_int y * cellSize - 1 / 2,
                         stroke = ''rgba(128, 128, 128, 0.5)'', strokeWidth = ''1''\<rparr>)
                [startY area..endY area]
      in gridLines (showGrid p) (pixelSize p) (gridGap p) area totalWidth totalHeight
           = Some lines
         \<and> svgChildren fmt p area c =
           [Defs (glowFilter (glowSettings p) (pixelSize p)) (bulbGradient (bulbSettings p)),
            PixelsLayer (renderPixels fmt p area c),
            InteractionLayer totalWidth totalHeight,
            GridLayer lines]
         \<and> last (svgChildren fmt p area c) = GridLayer lines
         \<and> (\<forall>l \<in> set lines. strokeWidth l = ''1''
              \<and> ((\<exists>x. startX area \<le> x \<and> x \<le> endX area
                       \<and> x1 l = real_of_int x * cellSize - 1 / 2 \<and> x2 l = x1 l
                       \<and> y1 l = 0 \<and> y2 l = totalHeight)
                 \<or> (\<exists>y. startY area \<le> y \<and> y \<le> endY area
                       \<and> y1 l = real_of_int y * cellSize - 1 / 2 \<and> y2 l = y1 l
                       \<and> x1 l = 0 \<and> x2 l = totalWidth)))
         \<and> length lines = nat (endX area - startX area + 1) + nat (endY area - startY area + 1))"
  by (auto simp: svgChildren_def Let_def gridLines_shown verticalLine_def horizontalLine_def)

text \<open>Witness for C9: on a grid of 100 by 100 cells of size 10 whose visible range is 0 to
  7 both ways, the last child is the grid group with 8 vertical and 8 horizontal lines,
  each half a unit before its boundary and 1000 units long.\<close>

theorem gridLines_last_visible_only_witness:
  "showGrid wideProps
   \<and> visibleArea sampleViewport (pixelSize wideProps) (gridGap wideProps)
        (gridWidth wideProps) (gridHeight wideProps)
       = \<lparr>startX = 0, endX = 7, startY = 0, endY = 7\<rparr>
   \<and> (case last (SVGRenderer decimalString wideProps sampleViewport []) of
         GridLayer lines \<Rightarrow>
           map (\<lambda>l. (x1 l, y1 l, x2 l, y2 l, strokeWidth l)) lines
           = [(- 1 / 2, 0, - 1 / 2, 1000, ''1''),
              (19 / 2, 0, 19 / 2, 1000, ''1''),
              (39 / 2, 0, 39 / 2, 1000, ''1''),
              (59 / 2, 0, 59 / 2, 1000, ''1''),
              (79 / 2, 0, 79 / 2, 1000, ''1''),
              (99 / 2, 0, 99 / 2, 1000, ''1''),
              (119 / 2, 0, 119 / 2, 1000, ''1''),
              (139 / 2, 0, 139 / 2, 1000, ''1''),
              (0, - 1 / 2, 1000, - 1 / 2, ''1''),
              (0, 19 / 2, 1000, 19 / 2, ''1''),
              (0, 39 / 2, 1000, 39 / 2, ''1''),
              (0, 59 / 2, 1000, 59 / 2, ''1''),
              (0, 79 / 2, 1000, 79 / 2, ''1''),
              (0, 99 / 2, 1000, 99 / 2, ''1''),
              (0, 119 / 2, 1000, 119 / 2, ''1''),
              (0, 139 / 2, 1000, 139 / 2, ''1'')]
       | _ \<Rightarrow> False)"
proof -
  let ?area = "\<lparr>startX = 0, endX = 7, startY = 0, endY = 7\<rparr>"
  have sg: "showGrid wideProps" by (simp add: wideProps_def sampleProps_def)
  have va: "visibleArea sampleViewport (pixelSize wideProps) (gridGap wideProps)
        (gridWidth wideProps) (gridHeight wideProps) = ?area"
    by (simp add: visibleArea_def sampleViewport_def wideProps_def sampleProps_def Let_def)
  have u: "[0..7] = [0, 1, 2, 3, 4, 5, 6, 7::int]" by (simp add: upto.simps)
  have "last (svgChildren decimalString wideProps ?area []) =
      GridLayer
        (map (\<lambda>x. \<lparr>line_key = [Lit ''v'', Num (real_of_int x)],
                       x1 = real_of_int x * 10 - 1 / 2, y1 = 0,
                       x2 = real_of_int x * 10 - 1 / 2, y2 = 1000,
                       stroke = ''rgba(128, 128, 128, 0.5)'', strokeWidth = ''1''\<rparr>) [0..7]
         @ map (\<lambda>y. \<lparr>line_key = [Lit ''h'', Num (real_of_int y)],
                         x1 = 0, y1 = real_of_int y * 10 - 1 / 2,
                         x2 = 1000, y2 = real_of_int y * 10 - 1 / 2,
                         stroke = ''rgba(128, 128, 128, 0.5)'', strokeWidth = ''1''\<rparr>) [0..7])"
    using sg gridLines_last_visible_only [of wideProps ?area decimalString "[]"]
    by (simp add: Let_def wideProps_def sampleProps_def)
  then show ?thesis using sg va by (simp add: SVGRenderer_def u)
qed

subsection \<open>Image sampling\<close>

lemma length_pixelBytes: "length (pixelBytes px) = 4 * length px"
  by (induction px) (auto simp: pixelBytes_def)

lemma pixelBytes_append: "pixelBytes (xs @ ys) = pixelBytes xs @ pixelBytes ys"
  by (simp add: pixelBytes_def)

lemma pixelBytes_Cons: "pixelBytes ((r, g, b, a) # px) = [r, g, b, a] @ pixelBytes px"
  by (simp add: pixelBytes_def)

lemma samplePixels_end: "length data \<le> i \<Longrightarrow> samplePixels data i acc = acc"
  by (simp add: samplePixels.simps)

lemma opaqueSamples_Cons:
  "opaqueSamples k (q # px) =
     (if 128 < alphaOf q then [sampleOf k q] else []) @ opaqueSamples (Suc k) px"
  by (simp add: opaqueSamples_def)

lemma samplePixels_from:
  "samplePixels (pixelBytes (pre @ px)) (4 * length pre) acc
     = acc @ opaqueSamples (length pre) px"
proof (induction px arbitrary: pre acc)
  case Nil
  then show ?case
    by (simp add: samplePixels_end length_pixelBytes opaqueSamples_def)
next
  case (Cons q px)
  obtain r g b a where q: "q = (r, g, b, a)" by (cases q) auto
  let ?data = "pixelBytes (pre @ q # px)"
  let ?i = "4 * length pre"
  have data: "?data = pixelBytes pre @ [r, g, b, a] @ pixelBytes px"
    by (simp add: pixelBytes_append pixelBytes_Cons q)
  have len: "length (pixelBytes pre) = ?i" by (rule length_pixelBytes)
  have n0: "?data ! ?i = r" and n1: "?data ! (?i + 1) = g"
    and n2: "?data ! (?i + 2) = b" and n3: "?data ! (?i + 3) = a"
    unfolding data using len by (simp_all add: nth_append)
  have lt: "?i < length ?data" "?i + 3 < length ?data"
    by (simp_all add: length_pixelBytes)
  have step: "samplePixels ?data ?i acc =
      samplePixels ?data (?i + 4)
        (if 128 < a then acc @ [\<lparr>sp_r = r, sp_g = g, sp_b = b, sp_index = length pre\<rparr>] else acc)"
    using lt n0 n1 n2 n3 by (subst samplePixels.simps) simp
  have next': "samplePixels ?data (?i + 4) acc' = acc' @ opaqueSamples (Suc (length pre)) px" for acc'
    using Cons [of "pre @ [q]" acc'] by (simp add: add.commute [of 4])
  show ?case
    unfolding step next' by (simp add: opaqueSamples_Cons q alphaOf_def sampleOf_def)
qed

lemma samplePixels_all: "samplePixels (pixelBytes px) 0 [] = opaqueSamples 0 px"
  using samplePixels_from [of "[]" px "[]"] by simp

lemma opaqueSamples_iff:
  "p \<in> set (opaqueSamples k px) \<longleftrightarrow>
     (\<exists>j < length px. 128 < alphaOf (px ! j) \<and> p = sampleOf (k + j) (px ! j))"
proof
  assume "p \<in> set (opaqueSamples k px)"
  then obtain i q where iq: "(i, q) \<in> set (enumerate k px)" "128 < alphaOf q" "p = sampleOf i q"
    by (auto simp: opaqueSamples_def)
  then have "k \<le> i" "i < length px + k" "px ! (i - k) = q"
    by (simp_all add: in_set_enumerate_eq)
  then have "i - k < length px \<and> 128 < alphaOf (px ! (i - k)) \<and> p = sampleOf (k + (i - k)) (px ! (i - k))"
    using iq by simp
  then show "\<exists>j < length px. 128 < alphaOf (px ! j) \<and> p = sampleOf (k + j) (px ! j)" by blast
next
  assume "\<exists>j < length px. 128 < alphaOf (px ! j) \<and> p = sampleOf (k + j) (px ! j)"
  then obtain j where j: "j < length px" "128 < alphaOf (px ! j)" "p = sampleOf (k + j) (px ! j)"
    by blast
  then have "(k + j, px ! j) \<in> set (enumerate k px)" by (simp add: in_set_enumerate_eq)
  then show "p \<in> set (opaqueSamples k px)"
    using j by (force simp: opaqueSamples_def)
qed

lemma nth_concat_rows:
  assumes "\<forall>row \<in> set rows. length row = w" and "y < length rows" and "x < w"
  shows "y * w + x < length (concat rows) \<and> concat rows ! (y * w + x) = rows ! y ! x"
  using assms
proof (induction rows arbitrary: y)
  case Nil
  then show ?case by simp
next
  case (Cons row rows)
  show ?case
  proof (cases y)
    case 0
    then show ?thesis using Cons.prems by (simp add: nth_append)
  next
    case (Suc y')
    then have "y' * w + x < length (concat rows) \<and> concat rows ! (y' * w + x) = rows ! y' ! x"
      using Cons by simp
    then show ?thesis using Cons.prems Suc by (simp add: nth_append)
  qed
qed

lemma sampleOf_index: "sp_index (sampleOf j q) = j"
  by (cases q) (simp add: sampleOf_def)

text \<open>
  Claim C7. For an image whose rows all have the target width, the sample list handed to
  the quantizer is the list of pixels with alpha above 128, in row-major order: the pixel
  at column \<open>x\<close> of row \<open>y\<close> has a sample exactly when its alpha exceeds 128, that sample is
  its red, green and blue with index \<open>y * w + x\<close>, and every sample comes from such a pixel.
\<close>

theorem import_samples_opaque_pixels:
  assumes "\<forall>row \<in> set rows. length row = w"
  shows "samplePixels (imageData rows) 0 [] = opaqueSamples 0 (concat rows)
     \<and> (\<forall>y x. y < length rows \<and> x < w \<longrightarrow>
          ((\<exists>p \<in> set (samplePixels (imageData rows) 0 []). sp_index p = y * w + x)
             \<longleftrightarrow> 128 < alphaOf (rows ! y ! x))
        \<and> (\<forall>p \<in> set (samplePixels (imageData rows) 0 []).
             sp_index p = y * w + x \<longrightarrow> p = sampleOf (y * w + x) (rows ! y ! x)))
     \<and> (\<forall>p \<in> set (samplePixels (imageData rows) 0 []).
          \<exists>y x. y < length rows \<and> x < w \<and> sp_index p = y * w + x
                \<and> 128 < alphaOf (rows ! y ! x))"
proof -
  let ?px = "concat rows" and ?out = "samplePixels (imageData rows) 0 []"
  have out: "?out = opaqueSamples 0 ?px" by (simp add: imageData_def samplePixels_all)
  have mem: "p \<in> set ?out \<longleftrightarrow> (\<exists>j < length ?px. 128 < alphaOf (?px ! j) \<and> p = sampleOf j (?px ! j))"
    for p unfolding out by (simp add: opaqueSamples_iff)
  have a: "((\<exists>p \<in> set ?out. sp_index p = y * w + x) \<longleftrightarrow> 128 < alphaOf (rows ! y ! x))
        \<and> (\<forall>p \<in> set ?out. sp_index p = y * w + x \<longrightarrow> p = sampleOf (y * w + x) (rows ! y ! x))"
    if "y < length rows" "x < w" for y x
  proof -
    have n: "y * w + x < length ?px" "?px ! (y * w + x) = rows ! y ! x"
      using nth_concat_rows [OF assms that] by simp_all
    have "sampleOf (y * w + x) (rows ! y ! x) \<in> set ?out" if al: "128 < alphaOf (rows ! y ! x)"
    proof -
      have "y * w + x < length ?px \<and> 128 < alphaOf (?px ! (y * w + x))
            \<and> sampleOf (y * w + x) (rows ! y ! x) = sampleOf (y * w + x) (?px ! (y * w + x))"
        using n al by simp
      then have "\<exists>j < length ?px. 128 < alphaOf (?px ! j)
            \<and> sampleOf (y * w + x) (rows ! y ! x) = sampleOf j (?px ! j)" by blast
      then show ?thesis by (simp only: mem)
    qed
    then have fwd: "128 < alphaOf (rows ! y ! x) \<Longrightarrow> \<exists>p \<in> set ?out. sp_index p = y * w + x"
      using sampleOf_index by blast
    have bwd: "128 < alphaOf (rows ! y ! x) \<and> p = sampleOf (y * w + x) (rows ! y ! x)"
      if pin: "p \<in> set ?out" and pidx: "sp_index p = y * w + x" for p
    proof -
      have "\<exists>j < length ?px. 128 < alphaOf (?px ! j) \<and> p = sampleOf j (?px ! j)"
        using pin by (simp only: mem)
      then obtain j where j: "j < length ?px" "128 < alphaOf (?px ! j)" "p = sampleOf j (?px ! j)"
        by blast
      have "j = y * w + x" using j(3) pidx by (simp add: sampleOf_index)
      then show ?thesis using j n by simp
    qed
    show ?thesis using fwd bwd by blast
  qed
  have len: "length ?px = length rows * w"
    using assms by (induction rows) auto
  have b: "\<exists>y x. y < length rows \<and> x < w \<and> sp_index p = y * w + x \<and> 128 < alphaOf (rows ! y ! x)"
    if pin: "p \<in> set ?out" for p
  proof -
    have "\<exists>j < length ?px. 128 < alphaOf (?px ! j) \<and> p = sampleOf j (?px ! j)"
      using pin by (simp only: mem)
    then obtain j where j: "j < length ?px" "128 < alphaOf (?px ! j)" "p = sampleOf j (?px ! j)"
      by blast
    have wpos: "0 < w" using j(1) len by (cases w) auto
    have y: "j div w < length rows" using j(1) len wpos by (simp add: less_mult_imp_div_less)
    have x: "j mod w < w" using wpos by simp
    have e: "j div w * w + j mod w = j" by simp
    have "?px ! j = rows ! (j div w) ! (j mod w)"
      using nth_concat_rows [OF assms y x] e by simp
    moreover have "sp_index p = j" using j(3) by (simp add: sampleOf_index)
    ultimately have "j div w < length rows \<and> j mod w < w \<and> sp_index p = j div w * w + j mod w
        \<and> 128 < alphaOf (rows ! (j div w) ! (j mod w))"
      using j(2) y x e by simp
    then show ?thesis by blast
  qed
  show ?thesis
  proof (intro conjI allI impI ballI)
    show "?out = opaqueSamples 0 ?px" by (rule out)
  next
    fix y x assume "y < length rows \<and> x < w"
    then show "(\<exists>p \<in> set ?out. sp_index p = y * w + x) \<longleftrightarrow> 128 < alphaOf (rows ! y ! x)"
      using a by blast
  next
    fix y x p assume "y < length rows \<and> x < w" "p \<in> set ?out" "sp_index p = y * w + x"
    then show "p = sampleOf (y * w + x) (rows ! y ! x)" using a by blast
  next
    fix p assume "p \<in> set ?out"
    then show "\<exists>y x. y < length rows \<and> x < w \<and> sp_index p = y * w + x
                \<and> 128 < alphaOf (rows ! y ! x)" by (rule b)
  qed
qed

text \<open>Witness for C7: of four pixels with alpha 255, 128, 129 and 0 the first and the third
  are sampled, with indices 0 and 2.\<close>

theorem import_samples_opaque_pixels_witness:
  "map length sampleImage = [2, 2]
   \<and> samplePixels (imageData sampleImage) 0 []
       = [\<lparr>sp_r = 255, sp_g = 0, sp_b = 0, sp_index = 0\<rparr>,
          \<lparr>sp_r = 0, sp_g = 0, sp_b = 255, sp_index = 2\<rparr>]"
proof -
  have h: "\<forall>row \<in> set sampleImage. length row = 2" by (simp add: sampleImage_def)
  have "samplePixels (imageData sampleImage) 0 [] = opaqueSamples 0 (concat sampleImage)"
    using import_samples_opaque_pixels [OF h] by blast
  then show ?thesis
    by (simp add: opaqueSamples_def sampleImage_def alphaOf_def sampleOf_def)
qed

subsection \<open>Import validation\<close>

lemma handleImageImport_invalid:
  assumes "\<not> jsGreater (parseInt ev (set_width s)) 0
      \<or> \<not> jsGreater (parseInt ev (set_height s)) 0
      \<or> \<not> (jsAtLeast (parseInt ev (set_maxColors s)) 2
           \<and> jsAtMost (parseInt ev (set_maxColors s)) 256)"
    and "url \<noteq> []"
  shows "handleImageImport ev (Some url) (Some s) st =
     (st,
      [ConsoleError ''Import failed: Invalid width, height, or max colors.'',
       Alert ''Invalid import settings. Width/Height must be > 0, Max Colors must be between 2 and 256.''])"
  using assms by (auto simp: handleImageImport_def Let_def)

lemma handleImageImport_missing_url:
  assumes "url = None \<or> url = Some []"
  shows "handleImageImport ev url (Some s) st =
     (st\<lparr>importModalOpen := False, importImageUrl := None\<rparr>,
      [ConsoleError ''Import failed: Missing image data or settings.''])"
  using assms by (auto simp: handleImageImport_def)

text \<open>
  Claim C8. When the parsed width is not above 0, or the parsed height is not above 0, or
  the parsed colour limit is not within 2 to 256 (a value that does not parse is NaN and
  fails every comparison), the handler returns before any processing, whatever the image
  URL: the grid dimensions, the pixel grid, the colour history and the drawn flag are as
  before, the grid is not resized and the quantizer is not called; and when the image URL is
  present the whole state is unchanged.
\<close>

theorem invalid_settings_leave_state:
  "\<not> jsGreater (parseInt ev (set_width s)) 0
     \<or> \<not> jsGreater (parseInt ev (set_height s)) 0
     \<or> \<not> (jsAtLeast (parseInt ev (set_maxColors s)) 2
          \<and> jsAtMost (parseInt ev (set_maxColors s)) 256)
   \<longrightarrow>
     (let res = handleImageImport ev url (Some s) st in
        gridDimensions (fst res) = gridDimensions st
        \<and> pixelGrid (fst res) = pixelGrid st
        \<and> colorHistory (fst res) = colorHistory st
        \<and> hasDrawn (fst res) = hasDrawn st
        \<and> (\<forall>e \<in> set (snd res). \<not> processes e)
        \<and> (url \<noteq> None \<and> url \<noteq> Some [] \<longrightarrow> fst res = st))"
proof (intro impI)
  assume inv: "\<not> jsGreater (parseInt ev (set_width s)) 0
     \<or> \<not> jsGreater (parseInt ev (set_height s)) 0
     \<or> \<not> (jsAtLeast (parseInt ev (set_maxColors s)) 2
          \<and> jsAtMost (parseInt ev (set_maxColors s)) 256)"
  show "let res = handleImageImport ev url (Some s) st in
        gridDimensions (fst res) = gridDimensions st
        \<and> pixelGrid (fst res) = pixelGrid st
        \<and> colorHistory (fst res) = colorHistory st
        \<and> hasDrawn (fst res) = hasDrawn st
        \<and> (\<forall>e \<in> set (snd res). \<not> processes e)
        \<and> (url \<noteq> None \<and> url \<noteq> Some [] \<longrightarrow> fst res = st)"
  proof (cases "url = None \<or> url = Some []")
    case True
    then show ?thesis
      using handleImageImport_missing_url [OF True, of ev s st]
      by (auto simp: Let_def processes_def)
  next
    case False
    then obtain u where u: "url = Some u" "u \<noteq> []" by (cases url) auto
    show ?thesis
      unfolding u(1) Let_def handleImageImport_invalid [OF inv u(2)]
      by (simp add: processes_def)
  qed
qed

text \<open>Witness for C8: width 0 and a width that does not parse leave the state as it is;
  for comparison, valid settings resize the grid, call the quantizer and repaint.\<close>

theorem invalid_settings_leave_state_witness:
  "\<not> jsGreater (parseInt sampleEnv (set_width \<lparr>set_width = ''0'', set_height = ''2'', set_maxColors = ''32''\<rparr>)) 0
   \<and> handleImageImport sampleEnv (Some ''data:image/png'')
        (Some \<lparr>set_width = ''0'', set_height = ''2'', set_maxColors = ''32''\<rparr>) sampleState
      = (sampleState,
         [ConsoleError ''Import failed: Invalid width, height, or max colors.'',
          Alert ''Invalid import settings. Width/Height must be > 0, Max Colors must be between 2 and 256.''])
   \<and> pixelGrid (fst (handleImageImport sampleEnv (Some ''data:image/png'')
        (Some \<lparr>set_width = ''abc'', set_height = ''2'', set_maxColors = ''32''\<rparr>) sampleState))
      = [[Some ''#123456'']]
   \<and> snd (handleImageImport sampleEnv (Some ''data:image/png'')
        (Some \<lparr>set_width = ''2'', set_height = ''2'', set_maxColors = ''32''\<rparr>) sampleState)
      = [ResizeGridCall 2 2,
         KMeansCall [\<lparr>sp_r = 255, sp_g = 0, sp_b = 0, sp_index = 0\<rparr>,
                     \<lparr>sp_r = 0, sp_g = 0, sp_b = 255, sp_index = 2\<rparr>] 32]
   \<and> pixelGrid (fst (handleImageImport sampleEnv (Some ''data:image/png'')
        (Some \<lparr>set_width = ''2'', set_height = ''2'', set_maxColors = ''32''\<rparr>) sampleState))
      = [[Some ''#000000'', None], [Some ''#000000'', None]]"
proof -
  let ?bad = "\<lparr>set_width = ''0'', set_height = ''2'', set_maxColors = ''32''\<rparr>"
  let ?nan = "\<lparr>set_width = ''abc'', set_height = ''2'', set_maxColors = ''32''\<rparr>"
  have b: "\<not> jsGreater (parseInt sampleEnv (set_width ?bad)) 0"
    by (simp add: sampleEnv_def jsGreater_def)
  have n: "\<not> jsGreater (parseInt sampleEnv (set_width ?nan)) 0"
    by (simp add: sampleEnv_def jsGreater_def)
  have e: "snd (handleImageImport sampleEnv (Some ''data:image/png'') (Some ?bad) sampleState)
      = [ConsoleError ''Import failed: Invalid width, height, or max colors.'',
         Alert ''Invalid import settings. Width/Height must be > 0, Max Colors must be between 2 and 256.'']"
    by (simp add: handleImageImport_def Let_def sampleEnv_def jsGreater_def)
  have "fst (handleImageImport sampleEnv (Some ''data:image/png'') (Some ?bad) sampleState) = sampleState"
    using b invalid_settings_leave_state [of sampleEnv ?bad "Some ''data:image/png''" sampleState]
    by (simp add: Let_def)
  then have 1: "handleImageImport sampleEnv (Some ''data:image/png'') (Some ?bad) sampleState
      = (sampleState,
         [ConsoleError ''Import failed: Invalid width, height, or max colors.'',
          Alert ''Invalid import settings. Width/Height must be > 0, Max Colors must be between 2 and 256.''])"
    using e by (simp add: prod_eq_iff)
  have "pixelGrid (fst (handleImageImport sampleEnv (Some ''data:image/png'') (Some ?nan) sampleState))
      = pixelGrid sampleState"
    using n invalid_settings_leave_state [of sampleEnv ?nan "Some ''data:image/png''" sampleState]
    by (simp add: Let_def)
  then have 2: "pixelGrid (fst (handleImageImport sampleEnv (Some ''data:image/png'') (Some ?nan) sampleState))
      = [[Some ''#123456'']]"
    by (simp add: sampleState_def)
  have sp: "samplePixels (imageData sampleImage) 0 []
       = [\<lparr>sp_r = 255, sp_g = 0, sp_b = 0, sp_index = 0\<rparr>,
          \<lparr>sp_r = 0, sp_g = 0, sp_b = 255, sp_index = 2\<rparr>]"
    by (simp add: imageData_def samplePixels_all opaqueSamples_def sampleImage_def
        alphaOf_def sampleOf_def)
  have 3: "snd (handleImageImport sampleEnv (Some ''data:image/png'')
        (Some \<lparr>set_width = ''2'', set_height = ''2'', set_maxColors = ''32''\<rparr>) sampleState)
      = [ResizeGridCall 2 2,
         KMeansCall [\<lparr>sp_r = 255, sp_g = 0, sp_b = 0, sp_index = 0\<rparr>,
                     \<lparr>sp_r = 0, sp_g = 0, sp_b = 255, sp_index = 2\<rparr>] 32]"
    by (simp add: handleImageImport_def Let_def sampleEnv_def jsGreater_def jsAtLeast_def
        jsAtMost_def sp)
  have 4: "pixelGrid (fst (handleImageImport sampleEnv (Some ''data:image/png'')
        (Some \<lparr>set_width = ''2'', set_height = ''2'', set_maxColors = ''32''\<rparr>) sampleState))
      = [[Some ''#000000'', None], [Some ''#000000'', None]]"
    by (simp add: handleImageImport_def Let_def sampleEnv_def jsGreater_def jsAtLeast_def
        jsAtMost_def sp paintCluster_def paintPixel_def numeral_2_eq_2)
  show ?thesis using b 1 2 3 4 by (simp only:) blast
qed

subsection \<open>Pointer positions\<close>






end
